theory Spec2Isabelle
  imports Main "HOL-Library.Sublist"
begin

section \<open>OctoCal: session tracking, time resolution, extraction, notification\<close>

text \<open>
  A shallow embedding of the Python sources \<^verbatim>\<open>main.py\<close>, \<^verbatim>\<open>session_parser.py\<close>,
  \<^verbatim>\<open>notifier.py\<close>, \<^verbatim>\<open>ical_generator.py\<close> and \<^verbatim>\<open>octopus_scraper.py\<close>.

  Conventions of the embedding:
  \<^item> a Python \<^verbatim>\<open>str\<close> is a \<open>string\<close>; the character classes of \<^verbatim>\<open>re\<close> and
    \<^verbatim>\<open>str.strip\<close> are those of Python on ASCII text;
  \<^item> \<^verbatim>\<open>datetime.now()\<close> is an explicit argument \<open>now\<close>, one value for all the
    readings of the clock within one call;
  \<^item> the file system is an explicit value that operations take and return;
  \<^item> a raised exception is \<open>Inl e\<close> of a result \<open>error + 'a\<close>; a returned
    \<^verbatim>\<open>None\<close> is \<open>None\<close> of an option;
  \<^item> logging is not modelled.
\<close>

datatype error = IndexError | ValueError | OverflowError

subsection \<open>Naive datetimes (\<^verbatim>\<open>datetime.datetime\<close>)\<close>

record datetime =
  dt_year :: nat
  dt_month :: nat
  dt_day :: nat
  dt_hour :: nat
  dt_minute :: nat
  dt_second :: nat
  dt_microsecond :: nat

text \<open>The calendar arithmetic of CPython's \<^verbatim>\<open>datetime\<close> module.\<close>

definition is_leap :: "nat \<Rightarrow> bool" where
  "is_leap y = (y mod 4 = 0 \<and> (if y mod 100 = 0 then y mod 400 = 0 else True))"

definition days_in_month :: "nat \<Rightarrow> nat \<Rightarrow> nat" where
  "days_in_month y m =
     (if m = 2 \<and> is_leap y then 29
      else [31, 28, 31, 30, 31, 30, 31, 31, 30, 31, 30, 31] ! (m - 1))"

definition days_before_year :: "nat \<Rightarrow> int" where
  "days_before_year year =
     (let y = int year - 1 in y * 365 + y div 4 - y div 100 + y div 400)"

definition days_before_month :: "nat \<Rightarrow> nat \<Rightarrow> int" where
  "days_before_month y m =
     [0, 31, 59, 90, 120, 151, 181, 212, 243, 273, 304, 334] ! (m - 1)
       + (if 2 < m \<and> is_leap y then 1 else 0)"

definition ymd2ord :: "nat \<Rightarrow> nat \<Rightarrow> nat \<Rightarrow> int" where
  "ymd2ord y m d = days_before_year y + days_before_month y m + int d"

definition toordinal :: "datetime \<Rightarrow> int" where
  "toordinal t = ymd2ord (dt_year t) (dt_month t) (dt_day t)"

definition day_us :: int where
  "day_us = 86400 * 1000000"

text \<open>
  The position of a datetime on the microsecond time line: its proleptic Gregorian
  ordinal in days, plus the time of day. The difference of two datetimes is the
  difference of their positions.
\<close>

definition to_us :: "datetime \<Rightarrow> int" where
  "to_us t =
     toordinal t * day_us
       + ((int (dt_hour t) * 3600 + int (dt_minute t) * 60 + int (dt_second t)) * 1000000
          + int (dt_microsecond t))"

definition MAXORDINAL :: int where
  "MAXORDINAL = 3652059"

text \<open>
  \<^verbatim>\<open>datetime + timedelta\<close> raises \<^verbatim>\<open>OverflowError\<close> unless the day of the sum is an
  ordinal between 1 and \<^verbatim>\<open>_MAXORDINAL\<close> (the years 1 to 9999). The sum is given by its
  position on the time line.
\<close>

definition shift_us :: "datetime \<Rightarrow> int \<Rightarrow> error + int" where
  "shift_us t delta =
     (let u = to_us t + delta
      in if 0 < u div day_us \<and> u div day_us \<le> MAXORDINAL then Inr u
         else Inl OverflowError)"

text \<open>Comparison of two datetimes: lexicographic on the fields, year first.\<close>

definition dt_key :: "datetime \<Rightarrow> nat list" where
  "dt_key t =
     [dt_year t, dt_month t, dt_day t, dt_hour t, dt_minute t, dt_second t,
      dt_microsecond t]"

fun lex_less :: "nat list \<Rightarrow> nat list \<Rightarrow> bool" where
  "lex_less [] [] = False"
| "lex_less [] (y # ys) = True"
| "lex_less (x # xs) [] = False"
| "lex_less (x # xs) (y # ys) = (if x = y then lex_less xs ys else x < y)"

definition dt_less :: "datetime \<Rightarrow> datetime \<Rightarrow> bool" where
  "dt_less a b = lex_less (dt_key a) (dt_key b)"

subsection \<open>Sessions (\<^verbatim>\<open>session_parser.Session\<close>)\<close>

record session =
  session_str :: string
  start_time :: datetime
  end_time :: datetime

subsection \<open>The file system\<close>

text \<open>
  A file holds a JSON document, a calendar document, or other bytes.
  \<^item> \<open>Json data\<close> is a JSON document that is an object, given by its members. A member
    is an array of strings, given by the set of its elements (\<^verbatim>\<open>_load_state\<close> applies
    \<^verbatim>\<open>set\<close> to every array it reads, and \<^verbatim>\<open>_save_state\<close> writes \<^verbatim>\<open>list(s)\<close> of a set
    in no particular order), or a value on which \<^verbatim>\<open>set(...)\<close> raises \<^verbatim>\<open>TypeError\<close>
    (a number, \<^verbatim>\<open>true\<close>, \<^verbatim>\<open>false\<close>, \<^verbatim>\<open>null\<close>, an array with an array or an object
    among its elements). Members that are strings, objects or arrays of other scalars
    are outside the model.
  \<^item> \<open>JsonOther\<close> is a JSON document that is not an object: \<^verbatim>\<open>json.load\<close> accepts it
    and \<^verbatim>\<open>data.get\<close> raises \<^verbatim>\<open>AttributeError\<close>.
  \<^item> \<open>Calendar\<close> and \<open>Raw\<close> are contents that \<^verbatim>\<open>json.load\<close> rejects.
  Opening a file for writing fails on a path that is not writable.
\<close>

type_synonym path = string

record vevent =
  ev_dtstart :: datetime
  ev_dtend :: datetime
  ev_dtstamp :: datetime
  ev_uid_of :: datetime
  ev_session_str :: string
  ev_alarms :: "int list"

datatype member = Strings "string set" | NoSet

datatype file_content =
    Json "string \<rightharpoonup> member"
  | JsonOther
  | Calendar "vevent list"
  | Raw string

record filesystem =
  files :: "path \<rightharpoonup> file_content"
  writable :: "path \<Rightarrow> bool"

subsection \<open>\<^verbatim>\<open>main.SessionTracker\<close>\<close>

record tracker =
  state_file :: path
  seen_sessions :: "string set"
  notified_upcoming :: "string set"
  notified_start :: "string set"
  notified_end :: "string set"

text \<open>
  \<^verbatim>\<open>set(data.get(key, []))\<close>: the set of the member, the empty set for a missing key,
  \<open>None\<close> when \<^verbatim>\<open>set\<close> raises.
\<close>

definition get_set :: "(string \<rightharpoonup> member) \<Rightarrow> string \<Rightarrow> string set option" where
  "get_set data k =
     (case data k of
        None \<Rightarrow> Some {}
      | Some (Strings v) \<Rightarrow> Some v
      | Some NoSet \<Rightarrow> None)"

text \<open>
  \<^verbatim>\<open>_load_state\<close>: a missing file leaves the sets as they are. Every exception is caught
  and logged: a file that \<^verbatim>\<open>json.load\<close> rejects, or a document that is no object, leaves
  the sets as they are; the four sets are assigned in order, and a member on which
  \<^verbatim>\<open>set\<close> raises ends the loading with the sets assigned before it in place.
\<close>

definition load_state :: "tracker \<Rightarrow> filesystem \<Rightarrow> tracker" where
  "load_state t fs =
     (case files fs (state_file t) of
        Some (Json data) \<Rightarrow>
          (case get_set data ''seen_sessions'' of
             None \<Rightarrow> t
           | Some a \<Rightarrow>
               (let t1 = t\<lparr>seen_sessions := a\<rparr>
                in case get_set data ''notified_upcoming'' of
                     None \<Rightarrow> t1
                   | Some b \<Rightarrow>
                       (let t2 = t1\<lparr>notified_upcoming := b\<rparr>
                        in case get_set data ''notified_start'' of
                             None \<Rightarrow> t2
                           | Some c \<Rightarrow>
                               (let t3 = t2\<lparr>notified_start := c\<rparr>
                                in case get_set data ''notified_end'' of
                                     None \<Rightarrow> t3
                                   | Some e \<Rightarrow> t3\<lparr>notified_end := e\<rparr>))))
      | _ \<Rightarrow> t)"

text \<open>\<^verbatim>\<open>__init__\<close>: four empty sets, then \<^verbatim>\<open>_load_state\<close>.\<close>

definition SessionTracker :: "path \<Rightarrow> filesystem \<Rightarrow> tracker" where
  "SessionTracker p fs =
     load_state
       \<lparr>state_file = p, seen_sessions = {}, notified_upcoming = {},
        notified_start = {}, notified_end = {}\<rparr> fs"

text \<open>
  \<^verbatim>\<open>_save_state\<close>: the whole state is written over the state file; a failure to write
  is caught and logged, and the file system stays as it was.
\<close>

definition state_doc :: "tracker \<Rightarrow> file_content" where
  "state_doc t =
     Json [''seen_sessions'' \<mapsto> Strings (seen_sessions t),
           ''notified_upcoming'' \<mapsto> Strings (notified_upcoming t),
           ''notified_start'' \<mapsto> Strings (notified_start t),
           ''notified_end'' \<mapsto> Strings (notified_end t)]"

definition save_state :: "tracker \<Rightarrow> filesystem \<Rightarrow> filesystem" where
  "save_state t fs =
     (if writable fs (state_file t)
      then fs\<lparr>files := (files fs)(state_file t \<mapsto> state_doc t)\<rparr>
      else fs)"

definition is_new_session :: "tracker \<Rightarrow> string \<Rightarrow> bool" where
  "is_new_session t d = (d \<notin> seen_sessions t)"

definition mark_seen :: "string \<Rightarrow> tracker \<times> filesystem \<Rightarrow> tracker \<times> filesystem" where
  "mark_seen d s =
     (let t = (fst s)\<lparr>seen_sessions := insert d (seen_sessions (fst s))\<rparr>
      in (t, save_state t (snd s)))"

definition should_notify_upcoming :: "tracker \<Rightarrow> string \<Rightarrow> bool" where
  "should_notify_upcoming t d = (d \<notin> notified_upcoming t)"

definition mark_notified_upcoming ::
  "string \<Rightarrow> tracker \<times> filesystem \<Rightarrow> tracker \<times> filesystem" where
  "mark_notified_upcoming d s =
     (let t = (fst s)\<lparr>notified_upcoming := insert d (notified_upcoming (fst s))\<rparr>
      in (t, save_state t (snd s)))"

definition should_notify_start :: "tracker \<Rightarrow> string \<Rightarrow> bool" where
  "should_notify_start t d = (d \<notin> notified_start t)"

definition mark_notified_start ::
  "string \<Rightarrow> tracker \<times> filesystem \<Rightarrow> tracker \<times> filesystem" where
  "mark_notified_start d s =
     (let t = (fst s)\<lparr>notified_start := insert d (notified_start (fst s))\<rparr>
      in (t, save_state t (snd s)))"

definition should_notify_end :: "tracker \<Rightarrow> string \<Rightarrow> bool" where
  "should_notify_end t d = (d \<notin> notified_end t)"

definition mark_notified_end ::
  "string \<Rightarrow> tracker \<times> filesystem \<Rightarrow> tracker \<times> filesystem" where
  "mark_notified_end d s =
     (let t = (fst s)\<lparr>notified_end := insert d (notified_end (fst s))\<rparr>
      in (t, save_state t (snd s)))"

text \<open>
  One call of the tracker's interface: the value it returns (queries only) and the
  tracker and file system after it.
\<close>

datatype tracker_op =
    IsNewSession string
  | MarkSeen string
  | ShouldNotifyUpcoming string
  | MarkNotifiedUpcoming string
  | ShouldNotifyStart string
  | MarkNotifiedStart string
  | ShouldNotifyEnd string
  | MarkNotifiedEnd string

fun call :: "tracker_op \<Rightarrow> tracker \<times> filesystem \<Rightarrow> bool option \<times> tracker \<times> filesystem" where
  "call (IsNewSession d) s = (Some (is_new_session (fst s) d), s)"
| "call (MarkSeen d) s = (None, mark_seen d s)"
| "call (ShouldNotifyUpcoming d) s = (Some (should_notify_upcoming (fst s) d), s)"
| "call (MarkNotifiedUpcoming d) s = (None, mark_notified_upcoming d s)"
| "call (ShouldNotifyStart d) s = (Some (should_notify_start (fst s) d), s)"
| "call (MarkNotifiedStart d) s = (None, mark_notified_start d s)"
| "call (ShouldNotifyEnd d) s = (Some (should_notify_end (fst s) d), s)"
| "call (MarkNotifiedEnd d) s = (None, mark_notified_end d s)"

fun calls :: "tracker_op list \<Rightarrow> tracker \<times> filesystem \<Rightarrow> tracker \<times> filesystem" where
  "calls [] s = s"
| "calls (c # cs) s = calls cs (snd (call c s))"

fun is_query :: "tracker_op \<Rightarrow> bool" where
  "is_query (IsNewSession d) = True"
| "is_query (ShouldNotifyUpcoming d) = True"
| "is_query (ShouldNotifyStart d) = True"
| "is_query (ShouldNotifyEnd d) = True"
| "is_query c = False"

subsection \<open>\<^verbatim>\<open>notifier.Notifier\<close>\<close>

text \<open>
  The fields the windowing predicates read. \<^verbatim>\<open>upcoming_hours\<close> is the integer number
  of hours of the configuration.
\<close>

record notifier =
  enabled :: bool
  upcoming_hours :: int
  notify_start :: bool
  notify_end :: bool

text \<open>
  \<^verbatim>\<open>should_notify_upcoming\<close> of the notifier. \<^verbatim>\<open>notification_time\<close> is
  \<^verbatim>\<open>session.start_time - timedelta(hours=self.upcoming_hours)\<close>;
  \<^verbatim>\<open>total_seconds()\<close> of a difference is its microseconds divided by \<open>10\<^sup>6\<close>, so the
  test against 300 seconds is a test of the microseconds against \<open>300 \<sqdot> 10\<^sup>6\<close>.
\<close>

definition Notifier_should_notify_upcoming ::
  "notifier \<Rightarrow> datetime \<Rightarrow> session \<Rightarrow> error + bool" where
  "Notifier_should_notify_upcoming n now s =
     (if \<not> enabled n then Inr False
      else
        case shift_us (start_time s) (- (upcoming_hours n * 3600 * 1000000)) of
          Inl e \<Rightarrow> Inl e
        | Inr notification_time \<Rightarrow>
            (let time_diff = \<bar>to_us now - notification_time\<bar>
             in Inr (time_diff < 300 * 1000000)))"

definition Notifier_should_notify_start :: "notifier \<Rightarrow> datetime \<Rightarrow> session \<Rightarrow> bool" where
  "Notifier_should_notify_start n now s =
     (if \<not> (enabled n \<and> notify_start n) then False
      else
        (let time_diff = \<bar>to_us now - to_us (start_time s)\<bar>
         in time_diff < 300 * 1000000))"

definition Notifier_should_notify_end :: "notifier \<Rightarrow> datetime \<Rightarrow> session \<Rightarrow> bool" where
  "Notifier_should_notify_end n now s =
     (if \<not> (enabled n \<and> notify_end n) then False
      else
        (let time_diff = \<bar>to_us now - to_us (end_time s)\<bar>
         in time_diff < 300 * 1000000))"

subsection \<open>\<^verbatim>\<open>ical_generator.ICalGenerator\<close>\<close>

record ical_generator =
  timezone :: string
  alarms_enabled :: bool
  alarm_times :: "int list"

definition ICalGenerator :: "string \<Rightarrow> bool \<Rightarrow> int list \<Rightarrow> ical_generator" where
  "ICalGenerator tz al ats =
     \<lparr>timezone = tz, alarms_enabled = al,
      alarm_times = (if ats = [] then [60, 15, 0] else ats)\<rparr>"

text \<open>
  One \<^verbatim>\<open>VEVENT\<close> of a session: start and end, the stamp \<^verbatim>\<open>datetime.now()\<close>, the
  instant the UID is printed from, the descriptor of the description, and the alarm
  triggers in minutes (\<open>0\<close> at the start, \<open>- m\<close> for \<open>m\<close> minutes before).
\<close>

definition event_of :: "ical_generator \<Rightarrow> datetime \<Rightarrow> session \<Rightarrow> vevent" where
  "event_of g now s =
     \<lparr>ev_dtstart = start_time s, ev_dtend = end_time s, ev_dtstamp = now,
      ev_uid_of = start_time s, ev_session_str = session_str s,
      ev_alarms =
        (if alarms_enabled g \<and> alarm_times g \<noteq> []
         then map (\<lambda>minutes. if minutes = 0 then 0 else - minutes) (alarm_times g)
         else [])\<rparr>"

text \<open>
  \<^verbatim>\<open>generate\<close>: returns \<^verbatim>\<open>False\<close> at once for an empty list of sessions; otherwise
  builds the calendar and writes it over the output path, returning \<^verbatim>\<open>False\<close> when the
  write fails.
\<close>

definition generate ::
  "ical_generator \<Rightarrow> datetime \<Rightarrow> session list \<Rightarrow> path \<Rightarrow> filesystem
     \<Rightarrow> bool \<times> filesystem" where
  "generate g now sessions output_path fs =
     (if sessions = [] then (False, fs)
      else
        (let cal = Calendar (map (event_of g now) sessions)
         in if writable fs output_path
            then (True, fs\<lparr>files := (files fs)(output_path \<mapsto> cal)\<rparr>)
            else (False, fs)))"

subsection \<open>\<^verbatim>\<open>main.OctopusEnergyMonitor.update_ical\<close>\<close>

text \<open>The configuration values \<^verbatim>\<open>update_ical\<close> looks up, with the output path joined.\<close>

record ical_config =
  cleanup_enabled :: bool
  days_to_keep :: int
  ical_output_path :: path

text \<open>
  \<^verbatim>\<open>update_ical\<close>: the sessions that end after \<^verbatim>\<open>now - timedelta(days=days_to_keep)\<close>
  (all of them when cleanup is off) go to \<^verbatim>\<open>generate\<close>; with none left the method
  calls \<^verbatim>\<open>generate([], path)\<close> for a placeholder file.
\<close>

definition update_ical ::
  "ical_config \<Rightarrow> ical_generator \<Rightarrow> datetime \<Rightarrow> session list \<Rightarrow> filesystem
     \<Rightarrow> error + filesystem" where
  "update_ical cfg g now sessions fs =
     (case (if cleanup_enabled cfg
            then (case shift_us now (- (days_to_keep cfg * day_us)) of
                    Inl e \<Rightarrow> Inl e
                  | Inr cutoff_date \<Rightarrow>
                      Inr (filter (\<lambda>s. cutoff_date < to_us (end_time s)) sessions))
            else Inr sessions) of
        Inl e \<Rightarrow> Inl e
      | Inr filtered_sessions \<Rightarrow>
          (if filtered_sessions = []
           then Inr (snd (generate g now [] (ical_output_path cfg) fs))
           else Inr (snd (generate g now filtered_sessions (ical_output_path cfg) fs))))"

subsection \<open>Strings: \<^verbatim>\<open>str\<close> methods and character classes\<close>

text \<open>The classes \<^verbatim>\<open>\d\<close>, \<^verbatim>\<open>\s\<close> and \<^verbatim>\<open>\w\<close> of \<^verbatim>\<open>re\<close> on ASCII characters.\<close>

definition is_digit :: "char \<Rightarrow> bool" where
  "is_digit c = (c \<in> set ''0123456789'')"

definition is_space :: "char \<Rightarrow> bool" where
  "is_space c =
     (c \<in> set [CHR '' '', CHR 0x09, CHR 0x0A, CHR 0x0B, CHR 0x0C, CHR 0x0D,
               CHR 0x1C, CHR 0x1D, CHR 0x1E, CHR 0x1F])"

definition is_upper :: "char \<Rightarrow> bool" where
  "is_upper c = (c \<in> set ''ABCDEFGHIJKLMNOPQRSTUVWXYZ'')"

definition is_lower :: "char \<Rightarrow> bool" where
  "is_lower c = (c \<in> set ''abcdefghijklmnopqrstuvwxyz'')"

definition is_word :: "char \<Rightarrow> bool" where
  "is_word c = (is_lower c \<or> is_upper c \<or> is_digit c \<or> c = CHR ''_'')"

definition lower_char :: "char \<Rightarrow> char" where
  "lower_char c =
     (case map_of (zip ''ABCDEFGHIJKLMNOPQRSTUVWXYZ'' ''abcdefghijklmnopqrstuvwxyz'') c of
        Some l \<Rightarrow> l
      | None \<Rightarrow> c)"

text \<open>\<^verbatim>\<open>str.lower()\<close>, \<^verbatim>\<open>str.strip()\<close> and \<^verbatim>\<open>str.split(sep)\<close> for a separator of one character.\<close>

definition lower :: "string \<Rightarrow> string" where
  "lower s = map lower_char s"

definition strip :: "string \<Rightarrow> string" where
  "strip s = rev (dropWhile is_space (rev (dropWhile is_space s)))"

fun split_on :: "char \<Rightarrow> string \<Rightarrow> string list" where
  "split_on sep [] = [[]]"
| "split_on sep (c # cs) =
     (if c = sep then [] # split_on sep cs
      else (case split_on sep cs of
              p # ps \<Rightarrow> (c # p) # ps
            | [] \<Rightarrow> [[c]]))"

text \<open>\<^verbatim>\<open>int(s)\<close> on a string of decimal digits, and \<^verbatim>\<open>str(n)\<close> of a natural number.\<close>

definition digit_val :: "char \<Rightarrow> nat" where
  "digit_val c = of_char c - 48"

definition nat_of_digits :: "string \<Rightarrow> nat" where
  "nat_of_digits s = foldl (\<lambda>n c. 10 * n + digit_val c) 0 s"

definition digit_char :: "nat \<Rightarrow> char" where
  "digit_char d = ''0123456789'' ! d"

fun show_nat :: "nat \<Rightarrow> string" where
  "show_nat n = (if n < 10 then [digit_char n] else show_nat (n div 10) @ [digit_char (n mod 10)])"

subsection \<open>Regular expressions (\<^verbatim>\<open>re\<close>)\<close>

text \<open>
  A backtracking matcher in the manner of \<^verbatim>\<open>re\<close>: \<open>ms r s\<close> lists, in the order in
  which the engine tries them, the rests of \<open>s\<close> after each way \<open>r\<close> matches at the
  start of \<open>s\<close>. The first rest is the match \<^verbatim>\<open>re\<close> reports. Alternatives are tried
  left to right, and the quantifiers \<^verbatim>\<open>?\<close>, \<^verbatim>\<open>*\<close> and \<^verbatim>\<open>+\<close> are greedy.
\<close>

datatype re =
    Eps
  | Cls "char \<Rightarrow> bool"
  | Seq re re
  | Alt re re
  | Star re

text \<open>The results of \<open>f\<close> on every element of \<open>xs\<close>, in order.\<close>

definition bindl :: "'a list \<Rightarrow> ('a \<Rightarrow> 'b list) \<Rightarrow> 'b list" where
  "bindl xs f = concat (map f xs)"

text \<open>
  The greedy star: one more round of \<open>f\<close> on every rest that is shorter, before the
  rest itself. At most \<open>n\<close> rounds; \<open>length s\<close> rounds exhaust \<open>s\<close>.
\<close>

fun iter :: "(string \<Rightarrow> string list) \<Rightarrow> nat \<Rightarrow> string \<Rightarrow> string list" where
  "iter f 0 s = [s]"
| "iter f (Suc n) s = bindl (filter (\<lambda>t. length t < length s) (f s)) (iter f n) @ [s]"

primrec ms :: "re \<Rightarrow> string \<Rightarrow> string list" where
  "ms Eps = (\<lambda>s. [s])"
| "ms (Cls p) = (\<lambda>s. case s of [] \<Rightarrow> [] | c # cs \<Rightarrow> if p c then [cs] else [])"
| "ms (Seq a b) = (\<lambda>s. bindl (ms a s) (ms b))"
| "ms (Alt a b) = (\<lambda>s. ms a s @ ms b s)"
| "ms (Star a) = (\<lambda>s. iter (ms a) (length s) s)"

definition opt :: "re \<Rightarrow> re" where
  "opt a = Alt a Eps"

definition plus :: "re \<Rightarrow> re" where
  "plus a = Seq a (Star a)"

definition chr :: "char \<Rightarrow> re" where
  "chr c = Cls (\<lambda>x. x = c)"

text \<open>A literal character under \<^verbatim>\<open>re.IGNORECASE\<close>.\<close>

definition chr_i :: "char \<Rightarrow> re" where
  "chr_i c = Cls (\<lambda>x. lower_char x = lower_char c)"

fun seq :: "re list \<Rightarrow> re" where
  "seq [] = Eps"
| "seq [r] = r"
| "seq (r # rs) = Seq r (seq rs)"

fun alts :: "re list \<Rightarrow> re" where
  "alts [] = Cls (\<lambda>x. False)"
| "alts [r] = r"
| "alts (r # rs) = Alt r (alts rs)"

definition lit :: "string \<Rightarrow> re" where
  "lit s = seq (map chr s)"

definition lit_i :: "string \<Rightarrow> re" where
  "lit_i s = seq (map chr_i s)"

text \<open>The text between a string and one of its rests.\<close>

definition cut :: "string \<Rightarrow> string \<Rightarrow> string" where
  "cut s rest = take (length s - length rest) s"

text \<open>
  \<^verbatim>\<open>re.search\<close>: the first position at which the matcher \<open>f\<close> succeeds, with what it
  returns there.
\<close>

fun search_with :: "(string \<Rightarrow> 'a option) \<Rightarrow> nat \<Rightarrow> string \<Rightarrow> (nat \<times> 'a) option" where
  "search_with f i [] = (case f [] of Some x \<Rightarrow> Some (i, x) | None \<Rightarrow> None)"
| "search_with f i (c # cs) =
     (case f (c # cs) of Some x \<Rightarrow> Some (i, x) | None \<Rightarrow> search_with f (Suc i) cs)"

definition match_here :: "re \<Rightarrow> string \<Rightarrow> string option" where
  "match_here r s = (case ms r s of [] \<Rightarrow> None | rest # _ \<Rightarrow> Some rest)"

text \<open>\<^verbatim>\<open>re.search(r, s)\<close> as \<^verbatim>\<open>(m.start(), m.end())\<close>.\<close>

definition re_search :: "re \<Rightarrow> string \<Rightarrow> (nat \<times> nat) option" where
  "re_search r s =
     (case search_with (match_here r) 0 s of
        None \<Rightarrow> None
      | Some (i, rest) \<Rightarrow> Some (i, length s - length rest))"

text \<open>
  \<^verbatim>\<open>re.sub\<close>, \<^verbatim>\<open>re.findall\<close> and \<^verbatim>\<open>re.split\<close> scan from left to right for matches
  that do not overlap. The matcher \<open>f\<close> of \<open>sub_with\<close> returns the replacement and the
  rest. The patterns of this program match no empty string; a match that consumes
  nothing is passed over.
\<close>

function sub_with :: "(string \<Rightarrow> (string \<times> string) option) \<Rightarrow> string \<Rightarrow> string" where
  "sub_with f [] = []"
| "sub_with f (c # cs) =
     (case f (c # cs) of
        None \<Rightarrow> c # sub_with f cs
      | Some (repl, rest) \<Rightarrow>
          if length rest < length (c # cs) then repl @ sub_with f rest
          else c # sub_with f cs)"
  by pat_completeness auto
termination
  by (relation "measure (\<lambda>(f, s). length s)") auto

definition re_sub :: "re \<Rightarrow> string \<Rightarrow> string \<Rightarrow> string" where
  "re_sub r repl s =
     sub_with (\<lambda>t. case match_here r t of None \<Rightarrow> None | Some rest \<Rightarrow> Some (repl, rest)) s"

function re_findall :: "re \<Rightarrow> string \<Rightarrow> string list" where
  "re_findall r [] = []"
| "re_findall r (c # cs) =
     (case match_here r (c # cs) of
        None \<Rightarrow> re_findall r cs
      | Some rest \<Rightarrow>
          if length rest < length (c # cs) then cut (c # cs) rest # re_findall r rest
          else re_findall r cs)"
  by pat_completeness auto
termination
  by (relation "measure (\<lambda>(r, s). length s)") auto

function split_acc :: "re \<Rightarrow> string \<Rightarrow> string \<Rightarrow> string list" where
  "split_acc r acc [] = [rev acc]"
| "split_acc r acc (c # cs) =
     (case match_here r (c # cs) of
        None \<Rightarrow> split_acc r (c # acc) cs
      | Some rest \<Rightarrow>
          if length rest < length (c # cs) then rev acc # split_acc r [] rest
          else split_acc r (c # acc) cs)"
  by pat_completeness auto
termination
  by (relation "measure (\<lambda>(r, acc, s). length s)") auto

definition re_split :: "re \<Rightarrow> string \<Rightarrow> string list" where
  "re_split r s = split_acc r [] s"
subsection \<open>\<^verbatim>\<open>datetime.strptime(s, '%A %d %B %Y')\<close>\<close>

text \<open>
  \<^verbatim>\<open>_strptime\<close> turns the format into the regular expression
  \<^verbatim>\<open>(?P<A>monday|...)\s+(?P<d>3[0-1]|[1-2]\d|0[1-9]|[1-9]| [1-9])\s+(?P<B>january|...)\s+(?P<Y>\d\d\d\d)\<close>
  (English day and month names, \<^verbatim>\<open>re.IGNORECASE\<close>), matches it at the start of the
  string and raises \<^verbatim>\<open>ValueError\<close> when it does not match or does not reach the end
  of the string, and when the day does not exist in the month of the year. The name
  of the weekday is not compared with the date. \<^verbatim>\<open>_strptime\<close> lists the names by
  falling length; no name is the start of another, so at most one alternative matches
  at a position and the order of the list does not matter.
\<close>

definition weekday_names :: "string list" where
  "weekday_names =
     [''monday'', ''tuesday'', ''wednesday'', ''thursday'', ''friday'', ''saturday'',
      ''sunday'']"

definition month_names :: "string list" where
  "month_names =
     [''january'', ''february'', ''march'', ''april'', ''may'', ''june'', ''july'',
      ''august'', ''september'', ''october'', ''november'', ''december'']"

definition re_A :: re where
  "re_A = alts (map lit_i weekday_names)"

definition re_B :: re where
  "re_B = alts (map lit_i month_names)"

definition in_range :: "char \<Rightarrow> char \<Rightarrow> re" where
  "in_range a b = Cls (\<lambda>x. (of_char a :: nat) \<le> of_char x \<and> (of_char x :: nat) \<le> of_char b)"

definition re_d :: re where
  "re_d =
     alts [Seq (chr CHR ''3'') (in_range CHR ''0'' CHR ''1''),
           Seq (in_range CHR ''1'' CHR ''2'') (Cls is_digit),
           Seq (chr CHR ''0'') (in_range CHR ''1'' CHR ''9''),
           in_range CHR ''1'' CHR ''9'',
           Seq (chr CHR '' '') (in_range CHR ''1'' CHR ''9'')]"

definition re_Y :: re where
  "re_Y = seq [Cls is_digit, Cls is_digit, Cls is_digit, Cls is_digit]"

definition re_ws :: re where
  "re_ws = plus (Cls is_space)"

text \<open>
  The matches of the format's expression in the order of the engine: the texts of the
  groups \<^verbatim>\<open>A\<close>, \<^verbatim>\<open>d\<close>, \<^verbatim>\<open>B\<close>, \<^verbatim>\<open>Y\<close>, and the rest of the string.
\<close>

definition strptime_matches ::
  "string \<Rightarrow> (string \<times> string \<times> string \<times> string \<times> string) list" where
  "strptime_matches s =
     bindl (ms re_A s) (\<lambda>r1.
     bindl (ms re_ws r1) (\<lambda>r2.
     bindl (ms re_d r2) (\<lambda>r3.
     bindl (ms re_ws r3) (\<lambda>r4.
     bindl (ms re_B r4) (\<lambda>r5.
     bindl (ms re_ws r5) (\<lambda>r6.
     bindl (ms re_Y r6) (\<lambda>r7.
       [(cut s r1, cut r2 r3, cut r4 r5, cut r6 r7, r7)])))))))"

text \<open>The position of a name in a list of names, counted from one.\<close>

fun index_of :: "string \<Rightarrow> string list \<Rightarrow> nat" where
  "index_of x [] = 1"
| "index_of x (y # ys) = (if x = y then 1 else Suc (index_of x ys))"

definition strptime :: "string \<Rightarrow> error + datetime" where
  "strptime s =
     (case strptime_matches s of
        [] \<Rightarrow> Inl ValueError
      | (A, d, B, Y, rest) # _ \<Rightarrow>
          if rest \<noteq> [] then Inl ValueError
          else
            (let year = nat_of_digits Y;
                 month = index_of (lower B) month_names;
                 day = nat_of_digits (strip d)
             in if year < 1 \<or> days_in_month year month < day then Inl ValueError
                else Inr \<lparr>dt_year = year, dt_month = month, dt_day = day, dt_hour = 0,
                          dt_minute = 0, dt_second = 0, dt_microsecond = 0\<rparr>))"

subsection \<open>\<^verbatim>\<open>session_parser.SessionParser\<close>\<close>

text \<open>
  \<^verbatim>\<open>re.match(r'(\d+)(am|pm)?', s)\<close>: the texts of group 1 and of group 2
  (\<open>None\<close> when the group took no part in the match).
\<close>

definition match_time :: "string \<Rightarrow> (string \<times> string option) option" where
  "match_time s =
     (case bindl (ms (plus (Cls is_digit)) s) (\<lambda>r1.
           bindl (ms (opt (alts [lit ''am'', lit ''pm''])) r1) (\<lambda>r2.
             [(cut s r1, if r2 = r1 then None else Some (cut r1 r2))])) of
        [] \<Rightarrow> None
      | g # _ \<Rightarrow> Some g)"

text \<open>
  \<^verbatim>\<open>re.sub(r'(\d+)(st|nd|rd|th)', r'\1', date_part, flags=re.IGNORECASE)\<close>: a match
  is replaced by its group 1.
\<close>

definition match_ordinal :: "string \<Rightarrow> (string \<times> string) option" where
  "match_ordinal s =
     (case bindl (ms (plus (Cls is_digit)) s) (\<lambda>r1.
           bindl (ms (alts [lit_i ''st'', lit_i ''nd'', lit_i ''rd'', lit_i ''th'']) r1) (\<lambda>r2.
             [(cut s r1, r2)])) of
        [] \<Rightarrow> None
      | g # _ \<Rightarrow> Some g)"

definition strip_ordinals :: "string \<Rightarrow> string" where
  "strip_ordinals date_part = sub_with match_ordinal date_part"

text \<open>
  \<^verbatim>\<open>date_obj.replace(hour=hour, minute=minute)\<close>: \<^verbatim>\<open>OverflowError\<close> for an hour
  that does not fit a C \<^verbatim>\<open>int\<close>, \<^verbatim>\<open>ValueError\<close> for any other hour above 23.
\<close>

definition replace_hm :: "datetime \<Rightarrow> nat \<Rightarrow> nat \<Rightarrow> error + datetime" where
  "replace_hm t hour minute =
     (if 2147483647 < hour then Inl OverflowError
      else if 23 < hour \<or> 59 < minute then Inl ValueError
      else Inr (t\<lparr>dt_hour := hour, dt_minute := minute\<rparr>))"

text \<open>
  \<^verbatim>\<open>_parse_datetime\<close>. \<^verbatim>\<open>int\<close> raises \<^verbatim>\<open>ValueError\<close> for a string of more than
  4300 digits (the default limit of CPython from 3.11). The first \<^verbatim>\<open>replace\<close> is
  outside every \<^verbatim>\<open>try\<close>; the second cannot fail once the first has passed.
\<close>

definition to_24h :: "nat \<Rightarrow> string \<Rightarrow> nat" where
  "to_24h hour ampm =
     (if ampm = ''pm'' \<and> hour \<noteq> 12 then hour + 12
      else if ampm = ''am'' \<and> hour = 12 then 0
      else hour)"

definition parse_datetime :: "datetime \<Rightarrow> string \<Rightarrow> string \<Rightarrow> error + datetime option" where
  "parse_datetime now time_str date_part =
     (case match_time (lower time_str) of
        None \<Rightarrow> Inr None
      | Some (g1, g2) \<Rightarrow>
          if 4300 < length g1 then Inl ValueError
          else
            (let hour = nat_of_digits g1;
                 ampm = (case g2 of Some a \<Rightarrow> a
                         | None \<Rightarrow> if hour = 12 then ''pm'' else ''am'');
                 hour = to_24h hour ampm;
                 minute = 0;
                 date_part_clean = strip_ordinals date_part;
                 current_year = dt_year now;
                 this_year = date_part_clean @ '' '' @ show_nat current_year;
                 next_year = date_part_clean @ '' '' @ show_nat (current_year + 1)
             in case (case strptime this_year of
                        Inr d \<Rightarrow> Some d
                      | Inl e \<Rightarrow> (case strptime next_year of
                                    Inr d \<Rightarrow> Some d
                                  | Inl e \<Rightarrow> None)) of
                  None \<Rightarrow> Inr None
                | Some date_obj \<Rightarrow>
                    (case replace_hm date_obj hour minute of
                       Inl e \<Rightarrow> Inl e
                     | Inr result \<Rightarrow>
                         if dt_less result now
                         then (case strptime next_year of
                                 Inl e \<Rightarrow> Inr (Some result)
                               | Inr d \<Rightarrow>
                                   (case replace_hm d hour minute of
                                      Inl e \<Rightarrow> Inr (Some result)
                                    | Inr r \<Rightarrow> Inr (Some r)))
                         else Inr (Some result))))"

text \<open>\<^verbatim>\<open>time_part.split('-')[0]\<close> and \<^verbatim>\<open>time_part.split('-')[1]\<close>.\<close>

definition parse_start_time :: "datetime \<Rightarrow> string \<Rightarrow> string \<Rightarrow> error + datetime option" where
  "parse_start_time now time_part date_part =
     (case split_on CHR ''-'' time_part of
        p0 # _ \<Rightarrow> parse_datetime now (strip p0) date_part
      | _ \<Rightarrow> Inl IndexError)"

definition parse_end_time :: "datetime \<Rightarrow> string \<Rightarrow> string \<Rightarrow> error + datetime option" where
  "parse_end_time now time_part date_part =
     (case split_on CHR ''-'' time_part of
        p0 # p1 # _ \<Rightarrow> parse_datetime now (strip p1) date_part
      | _ \<Rightarrow> Inl IndexError)"

definition parse :: "datetime \<Rightarrow> string \<Rightarrow> error + session option" where
  "parse now s =
     (let parts = split_on CHR '','' s
      in if length parts \<noteq> 2 then Inr None
         else
           (let time_part = strip (parts ! 0);
                date_part = strip (parts ! 1)
            in case parse_start_time now time_part date_part of
                 Inl e \<Rightarrow> Inl e
               | Inr st \<Rightarrow>
                   (case parse_end_time now time_part date_part of
                      Inl e \<Rightarrow> Inl e
                    | Inr en \<Rightarrow>
                        (case (st, en) of
                           (Some a, Some b) \<Rightarrow>
                             Inr (Some \<lparr>session_str = s, start_time = a, end_time = b\<rparr>)
                         | _ \<Rightarrow> Inr None))))"

subsection \<open>Auxiliary definitions for the proofs\<close>

text \<open>
  The second half of \<^verbatim>\<open>_parse_datetime\<close> as a function of the hour and of the two
  results of \<^verbatim>\<open>strptime\<close>, for the date phrase with the current year and with the
  next year. \<open>parse_datetime\<close> is proved equal to its composition with the first half.
\<close>

definition roll_forward ::
  "datetime \<Rightarrow> nat \<Rightarrow> error + datetime \<Rightarrow> error + datetime \<Rightarrow> error + datetime option" where
  "roll_forward now hour this_year next_year =
     (case (case this_year of
              Inr d \<Rightarrow> Some d
            | Inl e \<Rightarrow> (case next_year of Inr d \<Rightarrow> Some d | Inl e \<Rightarrow> None)) of
        None \<Rightarrow> Inr None
      | Some date_obj \<Rightarrow>
          (case replace_hm date_obj hour 0 of
             Inl e \<Rightarrow> Inl e
           | Inr result \<Rightarrow>
               if dt_less result now
               then (case next_year of
                       Inl e \<Rightarrow> Inr (Some result)
                     | Inr d \<Rightarrow>
                         (case replace_hm d hour 0 of
                            Inl e \<Rightarrow> Inr (Some result)
                          | Inr r \<Rightarrow> Inr (Some r)))
               else Inr (Some result)))"

text \<open>The hour of a time token by the rules of the specification, on the lowered token.\<close>

definition spec_suffix :: "string \<Rightarrow> string option" where
  "spec_suffix tok =
     (let rest = dropWhile is_digit tok
      in if prefix ''am'' rest then Some ''am''
         else if prefix ''pm'' rest then Some ''pm''
         else None)"

definition spec_hour24 :: "string \<Rightarrow> nat" where
  "spec_hour24 tok =
     (let h = nat_of_digits (takeWhile is_digit tok);
          ampm = (case spec_suffix tok of
                    Some a \<Rightarrow> a
                  | None \<Rightarrow> if h = 12 then ''pm'' else ''am'')
      in if ampm = ''pm'' \<and> h \<noteq> 12 then h + 12
         else if ampm = ''am'' \<and> h = 12 then 0
         else h)"

subsection \<open>\<^verbatim>\<open>octopus_scraper.OctopusScraper.extract_sessions\<close>\<close>

text \<open>
  The patterns of the method. All but \<open>separator_re\<close> are used with
  \<^verbatim>\<open>re.IGNORECASE\<close>, which changes the literal letters only.
\<close>

text \<open>\<^verbatim>\<open>\d+(?:am|pm)?-\d+(?:am|pm)?,\s*\w+\s*\d+(?:st|nd|rd|th)?\s*\w+\<close>\<close>

definition session_re :: re where
  "session_re =
     seq [plus (Cls is_digit), opt (alts [lit_i ''am'', lit_i ''pm'']), chr CHR ''-'',
          plus (Cls is_digit), opt (alts [lit_i ''am'', lit_i ''pm'']), chr CHR '','',
          Star (Cls is_space), plus (Cls is_word), Star (Cls is_space),
          plus (Cls is_digit),
          opt (alts [lit_i ''st'', lit_i ''nd'', lit_i ''rd'', lit_i ''th'']),
          Star (Cls is_space), plus (Cls is_word)]"

text \<open>\<^verbatim>\<open>Next\s+Sessions?:\<close>\<close>

definition next_sessions_re :: re where
  "next_sessions_re =
     seq [lit_i ''Next'', plus (Cls is_space), lit_i ''Session'', opt (chr_i CHR ''s''),
          chr CHR '':'']"

text \<open>\<^verbatim>\<open><h\d[^>]*>\<close>\<close>

definition heading_re :: re where
  "heading_re =
     seq [chr CHR ''<'', chr_i CHR ''h'', Cls is_digit, Star (Cls (\<lambda>c. c \<noteq> CHR ''>'')),
          chr CHR ''>'']"

text \<open>\<^verbatim>\<open><br\s*/?>\<close>\<close>

definition br_re :: re where
  "br_re =
     seq [chr CHR ''<'', lit_i ''br'', Star (Cls is_space), opt (chr CHR ''/''),
          chr CHR ''>'']"

text \<open>\<^verbatim>\<open><[^>]+>\<close>\<close>

definition tag_re :: re where
  "tag_re = seq [chr CHR ''<'', plus (Cls (\<lambda>c. c \<noteq> CHR ''>'')), chr CHR ''>'']"

text \<open>\<^verbatim>\<open>\n|Next|Power Tower\<close>, without \<^verbatim>\<open>re.IGNORECASE\<close>\<close>

definition separator_re :: re where
  "separator_re = alts [chr CHR 0x0A, lit ''Next'', lit ''Power Tower'']"

text \<open>\<^verbatim>\<open>Last\s+Session:\<close>\<close>

definition last_session_re :: re where
  "last_session_re = seq [lit_i ''Last'', plus (Cls is_space), lit_i ''Session:'']"

text \<open>\<^verbatim>\<open><h\d[^>]*>|Next Power Tower\<close>\<close>

definition last_end_re :: re where
  "last_end_re = alts [heading_re, lit_i ''Next Power Tower'']"

text \<open>
  \<^verbatim>\<open>Next(?:\s+\w+)*\s+Sessions?:\s*([^<\n]+)\<close>: the match at the start of a string,
  as the text of group 1.
\<close>

definition fallback_match :: "string \<Rightarrow> string option" where
  "fallback_match s =
     (case bindl
             (ms (seq [lit_i ''Next'', Star (Seq (plus (Cls is_space)) (plus (Cls is_word))),
                       plus (Cls is_space), lit_i ''Session'', opt (chr_i CHR ''s''),
                       chr CHR '':'', Star (Cls is_space)]) s)
             (\<lambda>r1. bindl (ms (plus (Cls (\<lambda>c. c \<noteq> CHR ''<'' \<and> c \<noteq> CHR 0x0A))) r1)
             (\<lambda>r2. [cut r1 r2])) of
        [] \<Rightarrow> None
      | g # _ \<Rightarrow> Some g)"

text \<open>
  The text block of a section: line breaks for \<^verbatim>\<open><br>\<close>, the other tags removed,
  stripped.
\<close>

definition text_of_block :: "string \<Rightarrow> string" where
  "text_of_block block = strip (re_sub tag_re [] (re_sub br_re [CHR 0x0A] block))"

text \<open>
  \<^verbatim>\<open>extract_sessions\<close>. \<^verbatim>\<open>list(set(sessions))\<close> keeps one copy of every string, in
  an order that Python does not fix; the model keeps them in the order of \<open>remdups\<close>,
  and no property below depends on the order.
\<close>

definition extract_sessions :: "string \<Rightarrow> string option \<times> string list" where
  "extract_sessions html_content =
     (let found =
        (case re_search next_sessions_re html_content of
           Some (m_start, m_end) \<Rightarrow>
             (let start_pos = m_end;
                  end_pos = (case re_search heading_re (drop start_pos html_content) of
                               Some (e_start, e_end) \<Rightarrow> e_start
                             | None \<Rightarrow> length html_content - start_pos);
                  block = take end_pos (drop start_pos html_content);
                  text_block = text_of_block block;
                  potential_sessions = re_split separator_re text_block
              in (Some ''next'',
                  concat (map (\<lambda>part. if strip part \<noteq> []
                                      then re_findall session_re (strip part) else [])
                            potential_sessions)))
         | None \<Rightarrow>
             (case re_search last_session_re html_content of
                Some (m_start, m_end) \<Rightarrow>
                  (let start_pos = m_end;
                       end_pos = (case re_search last_end_re (drop start_pos html_content) of
                                    Some (e_start, e_end) \<Rightarrow> e_start
                                  | None \<Rightarrow> length html_content - start_pos);
                       block = take end_pos (drop start_pos html_content);
                       text_block = text_of_block block
                   in (Some ''last'', re_findall session_re text_block))
              | None \<Rightarrow>
                  (case search_with fallback_match 0 html_content of
                     Some (i, g) \<Rightarrow>
                       (let session_raw = strip g;
                            session_clean = re_sub tag_re [] session_raw
                        in (Some ''next'', re_findall session_re session_clean))
                   | None \<Rightarrow> (None, []))))
      in (fst found, remdups (snd found)))"

subsection \<open>Example data\<close>

definition example_fs :: filesystem where
  "example_fs = \<lparr>files = Map.empty, writable = (\<lambda>p. True)\<rparr>"

definition readonly_fs :: filesystem where
  "readonly_fs = \<lparr>files = Map.empty, writable = (\<lambda>p. False)\<rparr>"

definition example_state :: "tracker \<times> filesystem" where
  "example_state = (SessionTracker ''output/state.json'' example_fs, example_fs)"

definition mk_datetime :: "nat \<Rightarrow> nat \<Rightarrow> nat \<Rightarrow> nat \<Rightarrow> nat \<Rightarrow> datetime" where
  "mk_datetime y m d h mi =
     \<lparr>dt_year = y, dt_month = m, dt_day = d, dt_hour = h, dt_minute = mi,
      dt_second = 0, dt_microsecond = 0\<rparr>"

definition example_notifier :: notifier where
  "example_notifier =
     \<lparr>enabled = True, upcoming_hours = 1, notify_start = True, notify_end = True\<rparr>"

definition session_at :: "datetime \<Rightarrow> datetime \<Rightarrow> session" where
  "session_at a b = \<lparr>session_str = ''12-2pm, Saturday 4th October'', start_time = a, end_time = b\<rparr>"

definition stale_event :: vevent where
  "stale_event =
     \<lparr>ev_dtstart = mk_datetime 2025 9 1 12 0, ev_dtend = mk_datetime 2025 9 1 14 0,
      ev_dtstamp = mk_datetime 2025 8 30 9 0, ev_uid_of = mk_datetime 2025 9 1 12 0,
      ev_session_str = ''12-2pm, Monday 1st September'', ev_alarms = [-60, -15, 0]\<rparr>"

definition stale_fs :: filesystem where
  "stale_fs =
     \<lparr>files = [''output/octopus_free_electricity.ics'' \<mapsto> Calendar [stale_event]],
      writable = (\<lambda>p. True)\<rparr>"

definition example_config :: ical_config where
  "example_config =
     \<lparr>cleanup_enabled = True, days_to_keep = 7,
      ical_output_path = ''output/octopus_free_electricity.ics''\<rparr>"

definition example_html :: string where
  "example_html =
     ''Next Sessions: 12-2pm, Saturday 4th October<br>3-5pm, Sunday 5th October''"

definition jan_1_2025 :: datetime where
  "jan_1_2025 = mk_datetime 2025 1 1 0 0"

definition mar_1_2024 :: datetime where
  "mar_1_2024 = mk_datetime 2024 3 1 0 0"

definition oct_4_2025_1pm :: datetime where
  "oct_4_2025_1pm = mk_datetime 2025 10 4 13 0"

definition example_text :: string where
  "example_text = ''12-2pm, Saturday 4th October'' @ [CHR 0x0A] @ ''3-5pm, Sunday 5th October''"

definition example_page :: string where
  "example_page =
     ''<h1>Free Electricity</h1><p>Next Sessions: 12-2pm, Saturday 4th October<br>3-5pm, Sunday 5th October</p><h2>FAQ</h2><p>Next year?</p>''"

section \<open>Properties of the tracker\<close>

lemma call_grows:
  "seen_sessions (fst s) \<subseteq> seen_sessions (fst (snd (call c s)))
   \<and> notified_upcoming (fst s) \<subseteq> notified_upcoming (fst (snd (call c s)))
   \<and> notified_start (fst s) \<subseteq> notified_start (fst (snd (call c s)))
   \<and> notified_end (fst s) \<subseteq> notified_end (fst (snd (call c s)))"
  by (cases c)
     (auto simp: mark_seen_def mark_notified_upcoming_def mark_notified_start_def
        mark_notified_end_def Let_def)

lemma calls_grows:
  "seen_sessions (fst s) \<subseteq> seen_sessions (fst (calls cs s))
   \<and> notified_upcoming (fst s) \<subseteq> notified_upcoming (fst (calls cs s))
   \<and> notified_start (fst s) \<subseteq> notified_start (fst (calls cs s))
   \<and> notified_end (fst s) \<subseteq> notified_end (fst (calls cs s))"
proof (induction cs arbitrary: s)
  case Nil
  show ?case by simp
next
  case (Cons c cs)
  from call_grows [of s c] Cons.IH [of "snd (call c s)"]
  show ?case by (simp only: calls.simps) blast
qed

lemma calls_append: "calls (xs @ ys) s = calls ys (calls xs s)"
  by (induction xs arbitrary: s) simp_all

lemma call_flag_iff:
  "d \<in> notified_upcoming (fst (snd (call c s)))
     \<longleftrightarrow> d \<in> notified_upcoming (fst s) \<or> c = MarkNotifiedUpcoming d"
  "d \<in> notified_start (fst (snd (call c s)))
     \<longleftrightarrow> d \<in> notified_start (fst s) \<or> c = MarkNotifiedStart d"
  "d \<in> notified_end (fst (snd (call c s)))
     \<longleftrightarrow> d \<in> notified_end (fst s) \<or> c = MarkNotifiedEnd d"
  by (cases c;
      auto simp: mark_seen_def mark_notified_upcoming_def mark_notified_start_def
        mark_notified_end_def Let_def)+

lemma calls_flag_iff:
  "d \<in> notified_upcoming (fst (calls cs s))
     \<longleftrightarrow> d \<in> notified_upcoming (fst s) \<or> MarkNotifiedUpcoming d \<in> set cs"
  "d \<in> notified_start (fst (calls cs s))
     \<longleftrightarrow> d \<in> notified_start (fst s) \<or> MarkNotifiedStart d \<in> set cs"
  "d \<in> notified_end (fst (calls cs s))
     \<longleftrightarrow> d \<in> notified_end (fst s) \<or> MarkNotifiedEnd d \<in> set cs"
proof (induction cs arbitrary: s)
  case Nil
  { case 1 show ?case by simp }
  { case 2 show ?case by simp }
  { case 3 show ?case by simp }
next
  case (Cons c cs)
  { case 1
    show ?case
      using Cons.IH(1) [of "snd (call c s)"] call_flag_iff(1) [of d c s] by auto }
  { case 2
    show ?case
      using Cons.IH(2) [of "snd (call c s)"] call_flag_iff(2) [of d c s] by auto }
  { case 3
    show ?case
      using Cons.IH(3) [of "snd (call c s)"] call_flag_iff(3) [of d c s] by auto }
qed

lemma marked_stays:
  "d \<in> notified_upcoming (fst (calls post (mark_notified_upcoming d s)))"
  "d \<in> notified_start (fst (calls post (mark_notified_start d s)))"
  "d \<in> notified_end (fst (calls post (mark_notified_end d s)))"
  by (simp_all add: calls_flag_iff mark_notified_upcoming_def mark_notified_start_def
        mark_notified_end_def Let_def)

text \<open>
  C7. Each milestone on its own, for every descriptor \<open>d\<close>, every tracker state \<open>s\<close>
  and all calls \<open>pre\<close> and \<open>post\<close> of the tracker's interface: after \<open>pre\<close> the
  milestone's query answers true exactly when the flag of \<open>d\<close> was not set in \<open>s\<close>
  and \<open>pre\<close> holds no \<^verbatim>\<open>mark_notified_*\<close> call of that milestone for \<open>d\<close>
  (marks of other milestones and of other descriptors do not matter); after the
  milestone's \<^verbatim>\<open>mark_notified_*(d)\<close> the query answers false, immediately and after
  any further calls; and no call removes a descriptor from a flag set.
\<close>

theorem should_notify_true_once:
  "should_notify_upcoming (fst (calls pre s)) d
     = (d \<notin> notified_upcoming (fst s) \<and> MarkNotifiedUpcoming d \<notin> set pre)
   \<and> \<not> should_notify_upcoming (fst (mark_notified_upcoming d s)) d
   \<and> \<not> should_notify_upcoming (fst (calls post (mark_notified_upcoming d s))) d
   \<and> should_notify_start (fst (calls pre s)) d
     = (d \<notin> notified_start (fst s) \<and> MarkNotifiedStart d \<notin> set pre)
   \<and> \<not> should_notify_start (fst (mark_notified_start d s)) d
   \<and> \<not> should_notify_start (fst (calls post (mark_notified_start d s))) d
   \<and> should_notify_end (fst (calls pre s)) d
     = (d \<notin> notified_end (fst s) \<and> MarkNotifiedEnd d \<notin> set pre)
   \<and> \<not> should_notify_end (fst (mark_notified_end d s)) d
   \<and> \<not> should_notify_end (fst (calls post (mark_notified_end d s))) d
   \<and> seen_sessions (fst s) \<subseteq> seen_sessions (fst (calls post s))
   \<and> notified_upcoming (fst s) \<subseteq> notified_upcoming (fst (calls post s))
   \<and> notified_start (fst s) \<subseteq> notified_start (fst (calls post s))
   \<and> notified_end (fst s) \<subseteq> notified_end (fst (calls post s))"
proof -
  have now: "d \<in> notified_upcoming (fst (mark_notified_upcoming d s))"
    "d \<in> notified_start (fst (mark_notified_start d s))"
    "d \<in> notified_end (fst (mark_notified_end d s))"
    using marked_stays [of d "[]" s] by simp_all
  show ?thesis
    using now marked_stays [of d post s] calls_grows [of s post]
    by (simp add: should_notify_upcoming_def should_notify_start_def
          should_notify_end_def calls_flag_iff)
qed

theorem should_notify_true_once_witness:
  "should_notify_start
     (fst (calls [MarkSeen ''a'', ShouldNotifyUpcoming ''a'', MarkNotifiedUpcoming ''a'',
                  MarkNotifiedStart ''b''] example_state)) ''a''
   \<and> \<not> should_notify_start
          (fst (calls [ShouldNotifyEnd ''a'', MarkNotifiedEnd ''a'', MarkSeen ''b'']
             (mark_notified_start ''a''
               (calls [MarkSeen ''a'', ShouldNotifyUpcoming ''a'',
                       MarkNotifiedUpcoming ''a'', MarkNotifiedStart ''b'']
                  example_state)))) ''a''"
proof -
  let ?pre = "[MarkSeen ''a'', ShouldNotifyUpcoming ''a'', MarkNotifiedUpcoming ''a'',
               MarkNotifiedStart ''b'']"
  have h: "''a'' \<notin> notified_start (fst example_state)"
    by (simp add: example_state_def example_fs_def SessionTracker_def load_state_def)
  have n: "MarkNotifiedStart ''a'' \<notin> set ?pre"
    by simp
  from should_notify_true_once [of ?pre example_state "''a''"] h n
  have a: "should_notify_start (fst (calls ?pre example_state)) ''a''"
    by blast
  from should_notify_true_once
         [of "[]" "calls ?pre example_state" "''a''"
            "[ShouldNotifyEnd ''a'', MarkNotifiedEnd ''a'', MarkSeen ''b'']"]
  have b: "\<not> should_notify_start
          (fst (calls [ShouldNotifyEnd ''a'', MarkNotifiedEnd ''a'', MarkSeen ''b'']
             (mark_notified_start ''a'' (calls ?pre example_state)))) ''a''"
    by blast
  from a b show ?thesis by blast
qed

text \<open>
  C8, as stated, fails: \<^verbatim>\<open>_save_state\<close> catches and logs a failure to write, so on a
  state file that cannot be written \<^verbatim>\<open>mark_seen(d)\<close> changes the tracker in memory
  only, and a tracker constructed over the same state file reports \<open>d\<close> as new.
\<close>

theorem mark_seen_lost_when_unwritable:
  "\<not> writable readonly_fs ''output/state.json''
   \<and> \<not> is_new_session
          (fst (mark_seen ''12-2pm, Saturday 4th October''
             (SessionTracker ''output/state.json'' readonly_fs, readonly_fs)))
          ''12-2pm, Saturday 4th October''
   \<and> is_new_session
        (SessionTracker ''output/state.json''
           (snd (mark_seen ''12-2pm, Saturday 4th October''
              (SessionTracker ''output/state.json'' readonly_fs, readonly_fs))))
        ''12-2pm, Saturday 4th October''"
  by (simp add: readonly_fs_def mark_seen_def is_new_session_def SessionTracker_def
        load_state_def save_state_def Let_def)

text \<open>
  C8, amended. After \<^verbatim>\<open>mark_seen(d)\<close> on a tracker whose state file can be written, a
  tracker constructed over the same state file (a restart) has the four flag sets of
  the tracker that was saved, and reports \<open>d\<close> as not new.
\<close>

theorem mark_seen_survives_restart:
  assumes "writable fs (state_file t)"
  shows "\<not> is_new_session (SessionTracker (state_file t) (snd (mark_seen d (t, fs)))) d
       \<and> SessionTracker (state_file t) (snd (mark_seen d (t, fs))) = fst (mark_seen d (t, fs))"
  using assms
  by (simp add: mark_seen_def is_new_session_def SessionTracker_def load_state_def
        save_state_def state_doc_def get_set_def Let_def)

theorem mark_seen_survives_restart_witness:
  "writable example_fs (state_file (fst example_state))
   \<and> \<not> is_new_session
        (SessionTracker (state_file (fst example_state))
           (snd (mark_seen ''12-2pm, Saturday 4th October''
              (fst example_state, example_fs))))
        ''12-2pm, Saturday 4th October''"
proof -
  have h: "writable example_fs (state_file (fst example_state))"
    by (simp add: example_fs_def)
  show ?thesis
    using h mark_seen_survives_restart [OF h, of "''12-2pm, Saturday 4th October''"]
    by blast
qed

text \<open>
  C10. The four queries \<^verbatim>\<open>is_new_session\<close>, \<^verbatim>\<open>should_notify_upcoming\<close>,
  \<^verbatim>\<open>should_notify_start\<close> and \<^verbatim>\<open>should_notify_end\<close> return the tracker (its four
  flag sets) and the file system (the state file with it) as they were.
\<close>

theorem queries_change_nothing:
  "snd (call (IsNewSession d) (t, fs)) = (t, fs)
   \<and> snd (call (ShouldNotifyUpcoming d) (t, fs)) = (t, fs)
   \<and> snd (call (ShouldNotifyStart d) (t, fs)) = (t, fs)
   \<and> snd (call (ShouldNotifyEnd d) (t, fs)) = (t, fs)
   \<and> (is_query c \<or> (\<exists>e. c = MarkSeen e \<or> c = MarkNotifiedUpcoming e
          \<or> c = MarkNotifiedStart e \<or> c = MarkNotifiedEnd e))"
  by (cases c) simp_all

section \<open>Properties of the notification window\<close>

lemmas calendar_defs =
  to_us_def toordinal_def ymd2ord_def days_before_year_def days_before_month_def
  is_leap_def day_us_def MAXORDINAL_def mk_datetime_def

text \<open>
  C3, as stated, fails: with \<^verbatim>\<open>upcoming_hours = 1\<close> and notifications enabled, a
  session that starts 61 minutes after \<open>now\<close> is one minute before its notification
  time, inside the five-minute band, and \<^verbatim>\<open>should_notify_upcoming\<close> returns true.
\<close>

theorem upcoming_at_61_minutes_fires:
  "to_us (mk_datetime 2025 10 4 12 1) = to_us (mk_datetime 2025 10 4 11 0) + 61 * 60000000
   \<and> enabled example_notifier \<and> upcoming_hours example_notifier = 1
   \<and> Notifier_should_notify_upcoming example_notifier (mk_datetime 2025 10 4 11 0)
        (session_at (mk_datetime 2025 10 4 12 1) (mk_datetime 2025 10 4 14 0)) = Inr True"
  by (simp add: Notifier_should_notify_upcoming_def shift_us_def example_notifier_def
        session_at_def calendar_defs)

text \<open>
  C3, amended. With \<^verbatim>\<open>upcoming_hours = 1\<close> and notifications enabled, for a session
  that starts \<open>m\<close> minutes after \<open>now\<close> (and whose notification time, one hour before
  the start, is a representable datetime) \<^verbatim>\<open>should_notify_upcoming\<close> returns true
  exactly when \<open>m\<close> is less than five minutes away from 60: true at 58 and at 61
  minutes, false at 70.
\<close>

theorem upcoming_window_one_hour:
  assumes "enabled n" and "upcoming_hours n = 1"
    and "to_us (start_time s) = to_us now + m * 60000000"
    and "shift_us (start_time s) (- 3600000000) = Inr u"
  shows "Notifier_should_notify_upcoming n now s = Inr (\<bar>m - 60\<bar> < 5)
       \<and> (if m = 58 \<or> m = 61 then Notifier_should_notify_upcoming n now s = Inr True
           else True)
       \<and> (if m = 70 then Notifier_should_notify_upcoming n now s = Inr False else True)"
proof -
  from assms(4) have u: "u = to_us (start_time s) - 3600000000"
    by (auto simp: shift_us_def Let_def split: if_splits)
  have "to_us now - u = (60 - m) * 60000000"
    unfolding u assms(3) by (simp add: algebra_simps)
  moreover have "\<bar>(60 - m) * 60000000\<bar> = \<bar>m - 60\<bar> * 60000000"
    by (simp only: abs_mult abs_minus_commute [of 60 m])
  ultimately have "\<bar>to_us now - u\<bar> = \<bar>m - 60\<bar> * 60000000"
    by (simp only:)
  moreover have "(\<bar>m - 60\<bar> * 60000000 < 300 * 1000000) = (\<bar>m - 60\<bar> < 5)"
  proof -
    have "(300::int) * 1000000 = 5 * 60000000" by simp
    then show ?thesis by (simp only: mult_less_cancel_right) simp
  qed
  ultimately have g: "Notifier_should_notify_upcoming n now s = Inr (\<bar>m - 60\<bar> < 5)"
    using assms(1,2,4) by (simp add: Notifier_should_notify_upcoming_def)
  show ?thesis
    unfolding g by auto
qed

theorem upcoming_window_one_hour_witness:
  "enabled example_notifier \<and> upcoming_hours example_notifier = 1
   \<and> to_us (mk_datetime 2025 10 4 11 58)
       = to_us (mk_datetime 2025 10 4 11 0) + 58 * 60000000
   \<and> shift_us (mk_datetime 2025 10 4 11 58) (- 3600000000) = Inr 63895258680000000
   \<and> Notifier_should_notify_upcoming example_notifier (mk_datetime 2025 10 4 11 0)
        (session_at (mk_datetime 2025 10 4 11 58) (mk_datetime 2025 10 4 14 0)) = Inr True"
proof -
  let ?s = "session_at (mk_datetime 2025 10 4 11 58) (mk_datetime 2025 10 4 14 0)"
  have e: "enabled example_notifier" "upcoming_hours example_notifier = 1"
    by (simp_all add: example_notifier_def)
  have st: "start_time ?s = mk_datetime 2025 10 4 11 58"
    by (simp add: session_at_def)
  have a: "to_us (start_time ?s) = to_us (mk_datetime 2025 10 4 11 0) + 58 * 60000000"
    unfolding st by (simp add: calendar_defs)
  have r: "shift_us (start_time ?s) (- 3600000000) = Inr 63895258680000000"
    unfolding st by (simp add: shift_us_def calendar_defs)
  have "Notifier_should_notify_upcoming example_notifier (mk_datetime 2025 10 4 11 0) ?s
          = Inr True"
    using upcoming_window_one_hour [OF e a r] by simp
  with e a r st show ?thesis by simp
qed

section \<open>Properties of the calendar update\<close>

text \<open>
  C4 fails on the code. \<^verbatim>\<open>update_ical\<close> calls \<^verbatim>\<open>generate([], path)\<close> for its
  placeholder, and \<^verbatim>\<open>generate\<close> returns \<^verbatim>\<open>False\<close> for an empty list before it
  opens the output file: the file system is returned as it was, and a calendar
  written earlier stays in place instead of an empty one.
\<close>

theorem update_ical_empty_leaves_stale_file:
  "generate g now [] p fs = (False, fs)
   \<and> update_ical example_config (ICalGenerator ''GMT'' True [60, 15, 0])
        (mk_datetime 2025 10 4 11 0) [] stale_fs = Inr stale_fs
   \<and> files stale_fs (ical_output_path example_config) = Some (Calendar [stale_event])
   \<and> Calendar [stale_event] \<noteq> Calendar []"
  by (simp add: generate_def update_ical_def example_config_def stale_fs_def shift_us_def
        calendar_defs)

section \<open>Evaluation of the matcher\<close>

text \<open>
  Equations that evaluate the matcher on a given string from the outside in: the
  function of a \<open>bindl\<close> is applied to the elements of an evaluated list only.
\<close>

lemma bindl_weak_cong [cong]: "xs = ys \<Longrightarrow> bindl xs f = bindl ys f"
  by simp

lemma bindl_Nil: "bindl [] f = []"
  by (simp add: bindl_def)

lemma bindl_Cons: "bindl (x # xs) f = f x @ bindl xs f"
  by (simp add: bindl_def)

lemma iter_weak_cong [cong]: "n = m \<Longrightarrow> s = t \<Longrightarrow> iter f n s = iter f m t"
  by simp

lemma ms_Eps: "ms Eps s = [s]"
  by simp

lemma ms_Cls_Nil: "ms (Cls p) [] = []"
  by simp

lemma ms_Cls_Cons: "ms (Cls p) (c # cs) = (if p c then [cs] else [])"
  by simp

lemma ms_Seq: "ms (Seq a b) s = bindl (ms a s) (ms b)"
  by simp

lemma ms_Alt: "ms (Alt a b) s = ms a s @ ms b s"
  by simp

lemma ms_Star: "ms (Star a) s = iter (ms a) (length s) s"
  by simp

lemmas ms_eval =
  ms_Eps ms_Cls_Nil ms_Cls_Cons ms_Seq ms_Alt ms_Star bindl_Nil bindl_Cons
  opt_def plus_def chr_def chr_i_def lit_def lit_i_def cut_def match_here_def

lemmas char_eval = is_digit_def is_space_def is_upper_def is_lower_def is_word_def
  lower_char_def lower_def strip_def

lemmas strptime_eval =
  strptime_def strptime_matches_def re_A_def re_B_def re_d_def re_Y_def re_ws_def
  weekday_names_def month_names_def in_range_def nat_of_digits_def digit_val_def
  days_in_month_def is_leap_def

section \<open>Properties of the matcher, of \<^verbatim>\<open>str\<close> and of \<^verbatim>\<open>strptime\<close>\<close>

lemma in_bindl: "y \<in> set (bindl xs f) \<longleftrightarrow> (\<exists>x \<in> set xs. y \<in> set (f x))"
  by (auto simp: bindl_def)

lemma iter_suffix:
  assumes "\<And>s t. t \<in> set (f s) \<Longrightarrow> suffix t s"
  shows "t \<in> set (iter f n s) \<Longrightarrow> suffix t s"
proof (induction n arbitrary: s t)
  case 0
  then show ?case by simp
next
  case (Suc n)
  then show ?case
    by (auto simp: in_bindl dest!: assms intro: suffix_order.trans)
qed

lemma ms_suffix: "t \<in> set (ms r s) \<Longrightarrow> suffix t s"
proof (induction r arbitrary: s t)
  case Eps
  then show ?case by simp
next
  case (Cls p)
  then show ?case by (cases s) (auto split: if_splits simp: suffix_Cons)
next
  case (Seq a b)
  from Seq.prems obtain u where "u \<in> set (ms a s)" "t \<in> set (ms b u)"
    by (auto simp: in_bindl)
  with Seq.IH show ?case by (blast intro: suffix_order.trans)
next
  case (Alt a b)
  then show ?case by auto
next
  case (Star a)
  then show ?case using iter_suffix [of "ms a"] by auto
qed

lemma iter_cls:
  "t \<in> set (iter (ms (Cls p)) n s) \<Longrightarrow> \<exists>w. s = w @ t \<and> list_all p w"
proof (induction n arbitrary: s t)
  case 0
  then show ?case by simp
next
  case (Suc n)
  show ?case
  proof (cases "t = s")
    case True
    then show ?thesis by simp
  next
    case False
    with Suc.prems obtain u where u: "u \<in> set (ms (Cls p) s)" "t \<in> set (iter (ms (Cls p)) n u)"
      by (auto simp: in_bindl)
    from u(1) obtain c where c: "s = c # u" "p c"
      by (cases s) (auto split: if_splits)
    from Suc.IH [OF u(2)] obtain w where "u = w @ t" "list_all p w" by blast
    with c have "s = (c # w) @ t \<and> list_all p (c # w)" by simp
    then show ?thesis by blast
  qed
qed

lemma ms_plus_cls:
  assumes "t \<in> set (ms (plus (Cls p)) s)"
  shows "\<exists>w. s = w @ t \<and> w \<noteq> [] \<and> list_all p w"
proof -
  from assms obtain u where u: "u \<in> set (ms (Cls p) s)" "t \<in> set (iter (ms (Cls p)) (length u) u)"
    by (auto simp: plus_def in_bindl)
  from u(1) obtain c where c: "s = c # u" "p c"
    by (cases s) (auto split: if_splits)
  from iter_cls [OF u(2)] obtain w where "u = w @ t" "list_all p w" by blast
  with c have "s = (c # w) @ t \<and> c # w \<noteq> [] \<and> list_all p (c # w)" by simp
  then show ?thesis by blast
qed

lemma ms_re_Y:
  assumes "t \<in> set (ms re_Y s)"
  shows "\<exists>Y. s = Y @ t \<and> length Y = 4 \<and> list_all is_digit Y"
proof -
  from assms obtain a b c d where "s = [a, b, c, d] @ t" "list_all is_digit [a, b, c, d]"
    by (auto simp: re_Y_def in_bindl split: list.splits if_splits)
  then show ?thesis by (intro exI [of _ "[a, b, c, d]"]) simp
qed

declare show_nat.simps [simp del]

lemma digit_char_is_digit: "d < 10 \<Longrightarrow> is_digit (digit_char d)"
proof -
  assume "d < 10"
  then have "d \<in> {0, 1, 2, 3, 4, 5, 6, 7, 8, 9}" by auto
  then show ?thesis by (auto simp: is_digit_def digit_char_def)
qed

lemma digit_val_digit_char: "d < 10 \<Longrightarrow> digit_val (digit_char d) = d"
proof -
  assume "d < 10"
  then have "d \<in> {0, 1, 2, 3, 4, 5, 6, 7, 8, 9}" by auto
  then show ?thesis by (auto simp: digit_val_def digit_char_def)
qed

lemma show_nat_digits: "list_all is_digit (show_nat n) \<and> show_nat n \<noteq> []"
proof (induction n rule: show_nat.induct)
  case (1 n)
  show ?case
  proof (cases "n < 10")
    case True
    then show ?thesis by (subst (1 2) show_nat.simps) (simp add: digit_char_is_digit)
  next
    case False
    with 1 show ?thesis
      by (subst (1 2) show_nat.simps) (simp add: digit_char_is_digit)
  qed
qed

lemma nat_of_digits_snoc: "nat_of_digits (xs @ [c]) = 10 * nat_of_digits xs + digit_val c"
  by (simp add: nat_of_digits_def)

lemma nat_of_digits_show_nat: "nat_of_digits (show_nat n) = n"
proof (induction n rule: show_nat.induct)
  case (1 n)
  show ?case
  proof (cases "n < 10")
    case True
    then show ?thesis
      by (subst show_nat.simps) (simp add: nat_of_digits_def digit_val_digit_char)
  next
    case False
    with 1 show ?thesis
      by (subst show_nat.simps) (simp add: nat_of_digits_snoc digit_val_digit_char)
  qed
qed

lemma space_not_digit: "is_space c \<Longrightarrow> \<not> is_digit c"
  by (auto simp: is_space_def is_digit_def)

text \<open>The digits at the end of a string, after a character that is no digit.\<close>

lemma digits_at_end:
  assumes "s = p @ [c] @ Y" and "\<not> is_digit c" and "list_all is_digit Y"
  shows "rev (takeWhile is_digit (rev s)) = Y"
proof -
  have "rev s = rev Y @ c # rev p" using assms(1) by simp
  moreover have "\<forall>x \<in> set (rev Y). is_digit x" using assms(3) by (simp add: list_all_iff)
  ultimately have "takeWhile is_digit (rev s) = rev Y @ takeWhile is_digit (c # rev p)"
    by (simp only: takeWhile_append2)
  then have "takeWhile is_digit (rev s) = rev Y"
    using assms(2) by simp
  then show ?thesis by simp
qed

lemma bindlE:
  assumes "y \<in> set (bindl xs f)"
  obtains x where "x \<in> set xs" and "y \<in> set (f x)"
  using assms by (auto simp: in_bindl)

lemma ms_suffix_trans: "suffix u s \<Longrightarrow> t \<in> set (ms r u) \<Longrightarrow> suffix t s"
  by (blast intro: suffix_order.trans dest: ms_suffix)

lemma strptime_matches_chain:
  assumes "(A, dd, B, Y, rest) \<in> set (strptime_matches s)"
  shows "\<exists>r5 r6. suffix r5 s \<and> r6 \<in> set (ms re_ws r5) \<and> rest \<in> set (ms re_Y r6)
           \<and> Y = cut r6 rest"
  using assms unfolding strptime_matches_def
proof (elim bindlE)
  fix r1 r2 r3 r4 r5 r6 r7
  assume r: "r1 \<in> set (ms re_A s)" "r2 \<in> set (ms re_ws r1)" "r3 \<in> set (ms re_d r2)"
    "r4 \<in> set (ms re_ws r3)" "r5 \<in> set (ms re_B r4)" "r6 \<in> set (ms re_ws r5)"
    "r7 \<in> set (ms re_Y r6)"
    and e: "(A, dd, B, Y, rest) \<in> set [(cut s r1, cut r2 r3, cut r4 r5, cut r6 r7, r7)]"
  have "suffix r1 s" using r(1) by (rule ms_suffix)
  then have "suffix r2 s" using r(2) by (rule ms_suffix_trans)
  then have "suffix r3 s" using r(3) by (rule ms_suffix_trans)
  then have "suffix r4 s" using r(4) by (rule ms_suffix_trans)
  then have "suffix r5 s" using r(5) by (rule ms_suffix_trans)
  moreover from e have "rest = r7" "Y = cut r6 r7" by simp_all
  ultimately show ?thesis using r(6,7) by blast
qed

lemma strptime_matches_shape:
  assumes "(A, dd, B, Y, rest) \<in> set (strptime_matches s)"
  shows "\<exists>p w. s = p @ w @ Y @ rest \<and> w \<noteq> [] \<and> list_all is_space w
           \<and> length Y = 4 \<and> list_all is_digit Y"
proof -
  from strptime_matches_chain [OF assms] obtain r5 r6 where
    r: "suffix r5 s" "r6 \<in> set (ms re_ws r5)" "rest \<in> set (ms re_Y r6)" and Y: "Y = cut r6 rest"
    by blast
  from r(1) obtain p where p: "s = p @ r5" by (auto simp: suffix_def)
  from ms_plus_cls [OF r(2) [unfolded re_ws_def]] obtain w where
    w: "r5 = w @ r6" "w \<noteq> []" "list_all is_space w" by blast
  from ms_re_Y [OF r(3)] obtain Y' where
    Y': "r6 = Y' @ rest" "length Y' = 4" "list_all is_digit Y'" by blast
  from Y Y' have "Y = Y'" by (simp add: cut_def)
  with p w Y' show ?thesis by auto
qed

lemma strptime_year:
  assumes "strptime (x @ '' '' @ show_nat y) = Inr d"
  shows "dt_year d = y"
proof -
  let ?s = "x @ '' '' @ show_nat y"
  from assms obtain A dd B Y more where
    m: "strptime_matches ?s = (A, dd, B, Y, []) # more" and yr: "dt_year d = nat_of_digits Y"
    unfolding strptime_def
    by (cases "strptime_matches ?s") (auto simp: Let_def split: if_splits)
  from m have "(A, dd, B, Y, []) \<in> set (strptime_matches ?s)" by simp
  from strptime_matches_shape [OF this] obtain p w where
    s: "?s = p @ w @ Y" and w: "w \<noteq> []" "list_all is_space w"
    and Y: "list_all is_digit Y" by auto
  from w obtain w' c where wc: "w = w' @ [c]" "is_space c"
    by (cases w rule: rev_cases) auto
  have "rev (takeWhile is_digit (rev ?s)) = Y"
    using digits_at_end [of ?s "p @ w'" c Y] s wc Y by (simp add: space_not_digit)
  moreover have "rev (takeWhile is_digit (rev ?s)) = show_nat y"
    using digits_at_end [of ?s x "CHR '' ''" "show_nat y"] show_nat_digits [of y]
    by (simp add: is_digit_def)
  ultimately show ?thesis using yr by (simp add: nat_of_digits_show_nat)
qed

section \<open>Evaluation of the parser on the examples\<close>

lemmas parse_eval = parse_datetime_def to_24h_def replace_hm_def dt_less_def dt_key_def
  mk_datetime_def nat_of_digits_def digit_val_def digit_char_def show_nat.simps char_eval

lemma ev_ord_oct: "strip_ordinals ''Saturday 4th October'' = ''Saturday 4 October''"
  by (simp del: ms.simps add: strip_ordinals_def match_ordinal_def ms_eval char_eval)

lemma ev_ord_feb: "strip_ordinals ''Thursday 29th February'' = ''Thursday 29 February''"
  by (simp del: ms.simps add: strip_ordinals_def match_ordinal_def ms_eval char_eval)

lemma ev_ord_nov: "strip_ordinals ''Sunday 3rd November'' = ''Sunday 3 November''"
  by (simp del: ms.simps add: strip_ordinals_def match_ordinal_def ms_eval char_eval)

lemma ev_strp_oct: "strptime ''Saturday 4 October 2025'' = Inr (mk_datetime 2025 10 4 0 0)"
  by (simp del: ms.simps add: strptime_eval ms_eval char_eval mk_datetime_def)

lemma ev_strp_feb24: "strptime ''Thursday 29 February 2024'' = Inr (mk_datetime 2024 2 29 0 0)"
  by (simp del: ms.simps add: strptime_eval ms_eval char_eval mk_datetime_def)

lemma ev_strp_feb25: "strptime ''Thursday 29 February 2025'' = Inl ValueError"
  by (simp del: ms.simps add: strptime_eval ms_eval char_eval mk_datetime_def)

lemma ev_strp_nov: "strptime ''Sunday 3 November 2025'' = Inr (mk_datetime 2025 11 3 0 0)"
  by (simp del: ms.simps add: strptime_eval ms_eval char_eval mk_datetime_def)

lemma ev_match_time:
  "match_time ''12'' = Some (''12'', None)"
  "match_time ''2pm'' = Some (''2'', Some ''pm'')"
  "match_time ''11pm'' = Some (''11'', Some ''pm'')"
  "match_time ''1am'' = Some (''1'', Some ''am'')"
  "match_time ''11'' = Some (''11'', None)"
  "match_time ''1pm'' = Some (''1'', Some ''pm'')"
  "match_time ''12pm'' = Some (''12'', Some ''pm'')"
  "match_time ''25'' = Some (''25'', None)"
  by (simp_all del: ms.simps add: match_time_def ms_eval char_eval)

lemma ev_pd_oct:
  "parse_datetime jan_1_2025 ''12'' ''Saturday 4th October''
     = Inr (Some (mk_datetime 2025 10 4 12 0))"
  "parse_datetime jan_1_2025 ''2pm'' ''Saturday 4th October''
     = Inr (Some (mk_datetime 2025 10 4 14 0))"
  "parse_datetime jan_1_2025 ''11pm'' ''Saturday 4th October''
     = Inr (Some (mk_datetime 2025 10 4 23 0))"
  "parse_datetime jan_1_2025 ''1am'' ''Saturday 4th October''
     = Inr (Some (mk_datetime 2025 10 4 1 0))"
  "parse_datetime jan_1_2025 ''25'' ''Saturday 4th October''
     = Inl ValueError"
  using ev_strp_oct [unfolded mk_datetime_def]
  by (simp_all add: jan_1_2025_def parse_eval ev_ord_oct ev_match_time)

section \<open>The structure of \<^verbatim>\<open>_parse_datetime\<close>\<close>

lemma parse_datetime_roll:
  "parse_datetime now tok dp =
     (case match_time (lower tok) of
        None \<Rightarrow> Inr None
      | Some (g1, g2) \<Rightarrow>
          if 4300 < length g1 then Inl ValueError
          else roll_forward now
                 (to_24h (nat_of_digits g1)
                    (case g2 of Some a \<Rightarrow> a
                     | None \<Rightarrow> if nat_of_digits g1 = 12 then ''pm'' else ''am''))
                 (strptime (strip_ordinals dp @ '' '' @ show_nat (dt_year now)))
                 (strptime (strip_ordinals dp @ '' '' @ show_nat (dt_year now + 1))))"
  unfolding parse_datetime_def roll_forward_def Let_def
  by (rule refl)

lemma roll_forward_Some:
  assumes "roll_forward now h T N = Inr (Some r)"
  shows "h \<le> 23"
    and "T = Inr d \<Longrightarrow>
         r = (if dt_less (d\<lparr>dt_hour := h, dt_minute := 0\<rparr>) now
              then (case N of Inl e \<Rightarrow> d\<lparr>dt_hour := h, dt_minute := 0\<rparr>
                    | Inr d' \<Rightarrow> d'\<lparr>dt_hour := h, dt_minute := 0\<rparr>)
              else d\<lparr>dt_hour := h, dt_minute := 0\<rparr>)"
    and "T = Inl e \<Longrightarrow> \<exists>d. N = Inr d \<and> r = d\<lparr>dt_hour := h, dt_minute := 0\<rparr>"
proof -
  show h23: "h \<le> 23"
    using assms
    by (auto simp: roll_forward_def replace_hm_def split: sum.splits option.splits if_splits)
  then have rp: "\<And>t. replace_hm t h 0 = Inr (t\<lparr>dt_hour := h, dt_minute := 0\<rparr>)"
    by (simp add: replace_hm_def)
  show "T = Inr d \<Longrightarrow>
         r = (if dt_less (d\<lparr>dt_hour := h, dt_minute := 0\<rparr>) now
              then (case N of Inl e \<Rightarrow> d\<lparr>dt_hour := h, dt_minute := 0\<rparr>
                    | Inr d' \<Rightarrow> d'\<lparr>dt_hour := h, dt_minute := 0\<rparr>)
              else d\<lparr>dt_hour := h, dt_minute := 0\<rparr>)"
    using assms by (auto simp: roll_forward_def rp split: sum.splits if_splits)
  show "T = Inl e \<Longrightarrow> \<exists>d. N = Inr d \<and> r = d\<lparr>dt_hour := h, dt_minute := 0\<rparr>"
    using assms by (auto simp: roll_forward_def rp split: sum.splits if_splits)
qed

lemma parse_datetime_Some:
  assumes "parse_datetime now tok dp = Inr (Some r)"
  shows "\<exists>g1 g2. match_time (lower tok) = Some (g1, g2) \<and>
      roll_forward now
        (to_24h (nat_of_digits g1)
           (case g2 of Some a \<Rightarrow> a | None \<Rightarrow> if nat_of_digits g1 = 12 then ''pm'' else ''am''))
        (strptime (strip_ordinals dp @ '' '' @ show_nat (dt_year now)))
        (strptime (strip_ordinals dp @ '' '' @ show_nat (dt_year now + 1))) = Inr (Some r)"
  using assms unfolding parse_datetime_roll
  by (cases "match_time (lower tok)") (auto split: if_splits)

lemma parse_Some:
  assumes "parse now d = Inr (Some s)"
  shows "\<exists>tr dp st en more.
           split_on CHR '','' d = [tr, dp] \<and> split_on CHR ''-'' (strip tr) = st # en # more
           \<and> parse_datetime now (strip st) (strip dp) = Inr (Some (start_time s))
           \<and> parse_datetime now (strip en) (strip dp) = Inr (Some (end_time s))"
proof -
  from assms have len: "length (split_on CHR '','' d) = 2"
    unfolding parse_def Let_def by (auto split: if_splits)
  then obtain tr dp where parts: "split_on CHR '','' d = [tr, dp]"
    by (cases "split_on CHR '','' d" rule: list.exhaust)
       (auto simp: length_Suc_conv)
  from assms obtain a b where ab: "parse_start_time now (strip tr) (strip dp) = Inr (Some a)"
    "parse_end_time now (strip tr) (strip dp) = Inr (Some b)"
    "s = \<lparr>session_str = d, start_time = a, end_time = b\<rparr>"
    unfolding parse_def Let_def parts
    by (auto split: sum.splits option.splits if_splits)
  from ab(2) obtain st en more where sp: "split_on CHR ''-'' (strip tr) = st # en # more"
    unfolding parse_end_time_def by (auto split: list.splits)
  with ab have "parse_datetime now (strip st) (strip dp) = Inr (Some (start_time s))"
    "parse_datetime now (strip en) (strip dp) = Inr (Some (end_time s))"
    by (simp_all add: parse_start_time_def parse_end_time_def)
  with parts sp show ?thesis by blast
qed

lemma iter_cls_hd:
  "length s \<le> n \<Longrightarrow> \<exists>rest. iter (ms (Cls p)) n s = dropWhile p s # rest"
proof (induction n arbitrary: s)
  case 0
  then show ?case by simp
next
  case (Suc n)
  show ?case
  proof (cases s)
    case Nil
    then show ?thesis by (simp add: bindl_Nil)
  next
    case (Cons c cs)
    show ?thesis
    proof (cases "p c")
      case True
      from Suc.prems Cons have "length cs \<le> n" by simp
      from Suc.IH [OF this] obtain rest where "iter (ms (Cls p)) n cs = dropWhile p cs # rest"
        by blast
      with True Cons show ?thesis by (simp add: bindl_Cons bindl_Nil)
    next
      case False
      with Cons show ?thesis by (simp add: bindl_Nil)
    qed
  qed
qed

lemma ms_plus_cls_none: "takeWhile p s = [] \<Longrightarrow> ms (plus (Cls p)) s = []"
  by (cases s) (auto simp: plus_def bindl_Nil split: if_splits)

lemma ms_plus_cls_hd:
  assumes "takeWhile p s \<noteq> []"
  shows "\<exists>rest. ms (plus (Cls p)) s = dropWhile p s # rest"
proof -
  from assms obtain c cs where s: "s = c # cs" "p c"
    by (cases s) (auto split: if_splits)
  from iter_cls_hd [of cs "length cs" p] obtain rest where
    "iter (ms (Cls p)) (length cs) cs = dropWhile p cs # rest" by auto
  with s show ?thesis by (simp add: plus_def bindl_Cons bindl_Nil)
qed

lemma ms_ampm:
  "ms (opt (Alt (lit ''am'') (lit ''pm''))) r =
     (if prefix ''am'' r then [drop 2 r] else []) @
     (if prefix ''pm'' r then [drop 2 r] else []) @ [r]"
proof (cases r)
  case Nil
  then show ?thesis by (simp del: ms.simps add: ms_eval)
next
  case (Cons a t)
  show ?thesis
  proof (cases t)
    case Nil
    with Cons show ?thesis by (simp del: ms.simps add: ms_eval)
  next
    case (Cons b u)
    with \<open>r = a # t\<close> show ?thesis by (simp del: ms.simps add: ms_eval)
  qed
qed

lemma cut_dropWhile: "cut s (dropWhile p s) = takeWhile p s"
proof -
  have "length (takeWhile p s) + length (dropWhile p s) = length s"
    by (simp only: length_append [symmetric] takeWhile_dropWhile_id)
  then have l: "length s - length (dropWhile p s) = length (takeWhile p s)"
    by arith
  have "take (length (takeWhile p s)) s = takeWhile p s"
    by (metis append_eq_conv_conj takeWhile_dropWhile_id)
  with l show ?thesis by (simp add: cut_def)
qed

lemma match_time_spec:
  "match_time s =
     (if takeWhile is_digit s = [] then None
      else Some (takeWhile is_digit s, spec_suffix s))"
proof (cases "takeWhile is_digit s = []")
  case True
  then show ?thesis by (simp add: match_time_def ms_plus_cls_none bindl_Nil)
next
  case False
  from ms_plus_cls_hd [OF this] obtain rest where
    m: "ms (plus (Cls is_digit)) s = dropWhile is_digit s # rest" by blast
  let ?r = "dropWhile is_digit s"
  have a: "prefix ''am'' ?r \<Longrightarrow> drop 2 ?r \<noteq> ?r \<and> cut ?r (drop 2 ?r) = ''am''"
    by (auto simp: prefix_def cut_def)
  have p: "prefix ''pm'' ?r \<Longrightarrow> drop 2 ?r \<noteq> ?r \<and> cut ?r (drop 2 ?r) = ''pm''"
    by (auto simp: prefix_def cut_def)
  consider (am) "prefix ''am'' ?r" | (pm) "\<not> prefix ''am'' ?r" "prefix ''pm'' ?r"
    | (none) "\<not> prefix ''am'' ?r" "\<not> prefix ''pm'' ?r" by blast
  then show ?thesis
  proof cases
    case am
    with a False show ?thesis
      by (simp add: match_time_def m bindl_Cons bindl_Nil ms_ampm cut_dropWhile
            spec_suffix_def Let_def)
  next
    case pm
    with p False show ?thesis
      by (simp add: match_time_def m bindl_Cons bindl_Nil ms_ampm cut_dropWhile
            spec_suffix_def Let_def)
  next
    case none
    with False show ?thesis
      by (simp add: match_time_def m bindl_Cons bindl_Nil ms_ampm cut_dropWhile
            spec_suffix_def Let_def)
  qed
qed

section \<open>The hours of a resolved descriptor\<close>

lemma to_24h_spec:
  assumes "match_time tok = Some (g1, g2)"
  shows "to_24h (nat_of_digits g1)
           (case g2 of Some a \<Rightarrow> a | None \<Rightarrow> if nat_of_digits g1 = 12 then ''pm'' else ''am'')
         = spec_hour24 tok"
proof -
  from assms have g: "g1 = takeWhile is_digit tok" "g2 = spec_suffix tok"
    unfolding match_time_spec by (simp_all split: if_splits)
  show ?thesis
    unfolding g spec_hour24_def to_24h_def Let_def by (rule refl)
qed

lemma parse_datetime_hour:
  assumes "parse_datetime now tok dp = Inr (Some r)"
  shows "dt_hour r = spec_hour24 (lower tok) \<and> dt_minute r = 0"
proof -
  from parse_datetime_Some [OF assms] obtain g1 g2 where
    m: "match_time (lower tok) = Some (g1, g2)" and
    rf: "roll_forward now
        (to_24h (nat_of_digits g1)
           (case g2 of Some a \<Rightarrow> a | None \<Rightarrow> if nat_of_digits g1 = 12 then ''pm'' else ''am''))
        (strptime (strip_ordinals dp @ '' '' @ show_nat (dt_year now)))
        (strptime (strip_ordinals dp @ '' '' @ show_nat (dt_year now + 1))) = Inr (Some r)"
    by blast
  let ?T = "strptime (strip_ordinals dp @ '' '' @ show_nat (dt_year now))"
  have "dt_hour r = spec_hour24 (lower tok) \<and> dt_minute r = 0"
  proof (cases ?T)
    case (Inl e)
    from roll_forward_Some(3) [OF rf Inl] show ?thesis
      unfolding to_24h_spec [OF m] by auto
  next
    case (Inr d)
    from roll_forward_Some(2) [OF rf Inr] show ?thesis
      unfolding to_24h_spec [OF m] by (auto split: if_splits sum.splits)
  qed
  then show ?thesis .
qed

text \<open>
  C6. For a descriptor that \<^verbatim>\<open>parse\<close> resolves, with the time range before the comma
  and the start and end tokens around its first dash: the hour of each instant is the
  hour that the conversion rules of the specification (\<open>spec_hour24\<close>: leading digits,
  an optional \<^verbatim>\<open>am\<close> or \<^verbatim>\<open>pm\<close>, \<^verbatim>\<open>pm\<close> inferred for a bare 12 and \<^verbatim>\<open>am\<close> for any
  other bare number, 12 added for \<^verbatim>\<open>pm\<close> unless the hour is 12, 0 for 12 \<^verbatim>\<open>am\<close>) give
  for the lowered token, and the minutes are 0.
\<close>

theorem hour_conversion_table:
  assumes "parse now d = Inr (Some s)"
    and "split_on CHR '','' d = [tr, dp]"
    and "split_on CHR ''-'' (strip tr) = st # en # others"
  shows "dt_hour (start_time s) = spec_hour24 (lower (strip st))
       \<and> dt_hour (end_time s) = spec_hour24 (lower (strip en))
       \<and> dt_minute (start_time s) = 0 \<and> dt_minute (end_time s) = 0"
proof -
  from parse_Some [OF assms(1)] assms(2,3)
  have "parse_datetime now (strip st) (strip dp) = Inr (Some (start_time s))"
    "parse_datetime now (strip en) (strip dp) = Inr (Some (end_time s))"
    by auto
  from parse_datetime_hour [OF this(1)] parse_datetime_hour [OF this(2)]
  show ?thesis by simp
qed

lemma ev_pd_nov:
  "parse_datetime (jan_1_2025) ''11'' ''Sunday 3rd November''
     = Inr (Some (mk_datetime 2025 11 3 11 0))"
  "parse_datetime (jan_1_2025) ''1pm'' ''Sunday 3rd November''
     = Inr (Some (mk_datetime 2025 11 3 13 0))"
  using ev_strp_nov [unfolded mk_datetime_def]
  by (simp_all add: jan_1_2025_def parse_eval ev_ord_nov ev_match_time)

lemmas parse_top_eval = parse_def parse_start_time_def parse_end_time_def strip_def is_space_def

lemma ev_parse_nov:
  "parse (jan_1_2025) ''11-1pm, Sunday 3rd November''
     = Inr (Some \<lparr>session_str = ''11-1pm, Sunday 3rd November'',
                   start_time = mk_datetime 2025 11 3 11 0,
                   end_time = mk_datetime 2025 11 3 13 0\<rparr>)"
  by (simp add: parse_top_eval Let_def ev_pd_nov)

lemma ev_spec_hour: "spec_hour24 ''11'' = 11" "spec_hour24 ''1pm'' = 13"
  by (simp_all add: spec_hour24_def spec_suffix_def is_digit_def nat_of_digits_def digit_val_def)

theorem hour_conversion_table_witness:
  "parse (jan_1_2025) ''11-1pm, Sunday 3rd November''
     = Inr (Some \<lparr>session_str = ''11-1pm, Sunday 3rd November'',
                   start_time = mk_datetime 2025 11 3 11 0,
                   end_time = mk_datetime 2025 11 3 13 0\<rparr>)
   \<and> split_on CHR '','' ''11-1pm, Sunday 3rd November'' = [''11-1pm'', '' Sunday 3rd November'']
   \<and> split_on CHR ''-'' (strip ''11-1pm'') = ''11'' # ''1pm'' # []
   \<and> dt_hour (mk_datetime 2025 11 3 11 0) = spec_hour24 (lower (strip ''11''))
   \<and> spec_hour24 (lower (strip ''11'')) = 11
   \<and> dt_hour (mk_datetime 2025 11 3 13 0) = spec_hour24 (lower (strip ''1pm''))
   \<and> spec_hour24 (lower (strip ''1pm'')) = 13"
proof -
  have a: "split_on CHR '','' ''11-1pm, Sunday 3rd November''
             = [''11-1pm'', '' Sunday 3rd November'']"
    by simp
  have b: "split_on CHR ''-'' (strip ''11-1pm'') = ''11'' # ''1pm'' # []"
    by (simp add: strip_def is_space_def)
  have c: "lower (strip ''11'') = ''11''" "lower (strip ''1pm'') = ''1pm''"
    by (simp_all add: char_eval)
  from hour_conversion_table [OF ev_parse_nov a b] ev_parse_nov a b c ev_spec_hour
  show ?thesis by simp
qed

section \<open>Resolution of the year, and the order of start and end\<close>

lemma ev_strp_oct26: "strptime ''Saturday 4 October 2026'' = Inr (mk_datetime 2026 10 4 0 0)"
  by (simp del: ms.simps add: strptime_eval ms_eval char_eval mk_datetime_def)

lemma ev_pd_feb:
  "parse_datetime mar_1_2024 ''12'' ''Thursday 29th February''
     = Inr (Some (mk_datetime 2024 2 29 12 0))"
  "parse_datetime mar_1_2024 ''2pm'' ''Thursday 29th February''
     = Inr (Some (mk_datetime 2024 2 29 14 0))"
  using ev_strp_feb24 [unfolded mk_datetime_def] ev_strp_feb25
  by (simp_all add: mar_1_2024_def parse_eval ev_ord_feb ev_match_time)

lemma ev_pd_in_progress:
  "parse_datetime oct_4_2025_1pm ''12'' ''Saturday 4th October''
     = Inr (Some (mk_datetime 2026 10 4 12 0))"
  "parse_datetime oct_4_2025_1pm ''2pm'' ''Saturday 4th October''
     = Inr (Some (mk_datetime 2025 10 4 14 0))"
  using ev_strp_oct [unfolded mk_datetime_def] ev_strp_oct26 [unfolded mk_datetime_def]
  by (simp_all add: oct_4_2025_1pm_def parse_eval ev_ord_oct ev_match_time)

lemma ev_parse_oct:
  "parse jan_1_2025 ''12-2pm, Saturday 4th October''
     = Inr (Some \<lparr>session_str = ''12-2pm, Saturday 4th October'',
                   start_time = mk_datetime 2025 10 4 12 0,
                   end_time = mk_datetime 2025 10 4 14 0\<rparr>)"
  by (simp add: parse_top_eval Let_def ev_pd_oct)


lemma ev_parse_feb:
  "parse mar_1_2024 ''12-2pm, Thursday 29th February''
     = Inr (Some \<lparr>session_str = ''12-2pm, Thursday 29th February'',
                   start_time = mk_datetime 2024 2 29 12 0,
                   end_time = mk_datetime 2024 2 29 14 0\<rparr>)"
  by (simp add: parse_top_eval Let_def ev_pd_feb)

lemma ev_parse_in_progress:
  "parse oct_4_2025_1pm ''12-2pm, Saturday 4th October''
     = Inr (Some \<lparr>session_str = ''12-2pm, Saturday 4th October'',
                   start_time = mk_datetime 2026 10 4 12 0,
                   end_time = mk_datetime 2025 10 4 14 0\<rparr>)"
  by (simp add: parse_top_eval Let_def ev_pd_in_progress)

lemma ev_parse_hour_25:
  "parse jan_1_2025 ''25-26, Saturday 4th October'' = Inl ValueError"
  by (simp add: parse_top_eval Let_def ev_pd_oct)

lemma roll_forward_no_raise:
  "h \<le> 23 \<Longrightarrow> \<exists>r. roll_forward now h T N = Inr r"
  by (auto simp: roll_forward_def replace_hm_def split: sum.splits option.splits)

lemma parse_datetime_12pm: "\<exists>r. parse_datetime now ''12pm'' dp = Inr r"
proof -
  have m: "match_time (lower ''12pm'') = Some (''12'', Some ''pm'')"
    by (simp add: char_eval ev_match_time)
  have h: "to_24h (nat_of_digits ''12'') ''pm'' = 12"
    by (simp add: to_24h_def nat_of_digits_def digit_val_def)
  show ?thesis
    unfolding parse_datetime_roll m
    using roll_forward_no_raise [of 12 now] by (simp add: h)
qed

lemma parse_no_dash: "parse now ''12pm, Saturday 4th October'' = Inl IndexError"
proof -
  obtain r where r: "parse_datetime now ''12pm'' ''Saturday 4th October'' = Inr r"
    using parse_datetime_12pm by blast
  show ?thesis
    by (simp add: parse_top_eval Let_def r)
qed

lemma roll_forward_year:
  assumes rf: "roll_forward now h (strptime (x @ '' '' @ show_nat y))
                 (strptime (x @ '' '' @ show_nat (y + 1))) = Inr (Some r)"
    and T: "strptime (x @ '' '' @ show_nat y) = Inr d"
  shows "dt_hour r = h \<and> dt_minute r = 0 \<and>
         dt_year r =
           (if dt_less (d\<lparr>dt_hour := h, dt_minute := 0\<rparr>) now
               \<and> \<not> isl (strptime (x @ '' '' @ show_nat (y + 1)))
            then y + 1 else y)"
proof -
  let ?N = "strptime (x @ '' '' @ show_nat (y + 1))"
  note r = roll_forward_Some(2) [OF rf T]
  have yd: "dt_year d = y" using strptime_year [OF T] .
  show ?thesis
  proof (cases ?N)
    case (Inl e)
    with r yd show ?thesis by simp
  next
    case (Inr d')
    then have "dt_year d' = y + 1" by (rule strptime_year)
    with r yd Inr show ?thesis by simp
  qed
qed



text \<open>
  C5, as stated, fails: on 1 March 2024 the phrase \<^verbatim>\<open>Thursday 29th February\<close> parses
  with the current year, the instant at 12:00 is before the current time, and the year
  is not advanced, because 2025 has no 29 February and \<^verbatim>\<open>_parse_datetime\<close> passes
  over the \<^verbatim>\<open>ValueError\<close> of the second \<^verbatim>\<open>strptime\<close>.
\<close>

theorem leap_day_year_not_advanced:
  "strptime (strip_ordinals ''Thursday 29th February'' @ '' '' @ show_nat (dt_year mar_1_2024))
     = Inr (mk_datetime 2024 2 29 0 0)
   \<and> parse_datetime mar_1_2024 ''12'' ''Thursday 29th February''
       = Inr (Some (mk_datetime 2024 2 29 12 0))
   \<and> dt_less (mk_datetime 2024 2 29 12 0) mar_1_2024
   \<and> dt_year (mk_datetime 2024 2 29 12 0) = dt_year mar_1_2024
   \<and> parse mar_1_2024 ''12-2pm, Thursday 29th February''
       = Inr (Some \<lparr>session_str = ''12-2pm, Thursday 29th February'',
                     start_time = mk_datetime 2024 2 29 12 0,
                     end_time = mk_datetime 2024 2 29 14 0\<rparr>)"
proof -
  have "strptime (strip_ordinals ''Thursday 29th February'' @ '' '' @ show_nat (dt_year mar_1_2024))
     = Inr (mk_datetime 2024 2 29 0 0)"
    using ev_strp_feb24
    by (simp add: ev_ord_feb mar_1_2024_def mk_datetime_def show_nat.simps digit_char_def)
  moreover have "dt_less (mk_datetime 2024 2 29 12 0) mar_1_2024"
    "dt_year (mk_datetime 2024 2 29 12 0) = dt_year mar_1_2024"
    by (simp_all add: mar_1_2024_def mk_datetime_def dt_less_def dt_key_def)
  ultimately show ?thesis
    using ev_pd_feb(1) ev_parse_feb by simp
qed

text \<open>
  C5, amended. For a time token and a date phrase that \<^verbatim>\<open>_parse_datetime\<close> resolves,
  where the phrase parses with the current year to the date \<open>d\<close>: the resolved year is
  the current year plus one if \<open>d\<close> at the parsed hour is strictly before the current
  time and the phrase parses with the next year as well; otherwise it is the current
  year. With the current date 2025-01-01, \<^verbatim>\<open>12-2pm, Saturday 4th October\<close> resolves to
  2025-10-04 12:00 and 2025-10-04 14:00.
\<close>

theorem year_advanced_when_past:
  assumes "strptime (strip_ordinals dp @ '' '' @ show_nat (dt_year now)) = Inr d"
    and "parse_datetime now tok dp = Inr (Some r)"
  shows "dt_year r =
           (if dt_less (d\<lparr>dt_hour := dt_hour r, dt_minute := 0\<rparr>) now
               \<and> \<not> isl (strptime (strip_ordinals dp @ '' '' @ show_nat (dt_year now + 1)))
            then dt_year now + 1 else dt_year now)
       \<and> parse jan_1_2025 ''12-2pm, Saturday 4th October''
           = Inr (Some \<lparr>session_str = ''12-2pm, Saturday 4th October'',
                         start_time = mk_datetime 2025 10 4 12 0,
                         end_time = mk_datetime 2025 10 4 14 0\<rparr>)"
proof -
  from parse_datetime_Some [OF assms(2)] obtain h where
    "roll_forward now h (strptime (strip_ordinals dp @ '' '' @ show_nat (dt_year now)))
        (strptime (strip_ordinals dp @ '' '' @ show_nat (dt_year now + 1))) = Inr (Some r)"
    by blast
  from roll_forward_year [OF this assms(1)] ev_parse_oct show ?thesis
    by simp
qed

theorem year_advanced_when_past_witness:
  "strptime (strip_ordinals ''Saturday 4th October'' @ '' '' @ show_nat (dt_year oct_4_2025_1pm))
     = Inr (mk_datetime 2025 10 4 0 0)
   \<and> parse_datetime oct_4_2025_1pm ''12'' ''Saturday 4th October''
       = Inr (Some (mk_datetime 2026 10 4 12 0))
   \<and> dt_less ((mk_datetime 2025 10 4 0 0)\<lparr>dt_hour := 12, dt_minute := 0\<rparr>) oct_4_2025_1pm
   \<and> dt_year (mk_datetime 2026 10 4 12 0) = dt_year oct_4_2025_1pm + 1"
proof -
  have T: "strptime (strip_ordinals ''Saturday 4th October'' @ '' '' @ show_nat (dt_year oct_4_2025_1pm))
     = Inr (mk_datetime 2025 10 4 0 0)"
    using ev_strp_oct
    by (simp add: ev_ord_oct oct_4_2025_1pm_def mk_datetime_def show_nat.simps digit_char_def)
  have l: "dt_less ((mk_datetime 2025 10 4 0 0)\<lparr>dt_hour := 12, dt_minute := 0\<rparr>) oct_4_2025_1pm"
    by (simp add: oct_4_2025_1pm_def mk_datetime_def dt_less_def dt_key_def)
  have y: "dt_year (mk_datetime 2026 10 4 12 0) = dt_year oct_4_2025_1pm + 1"
    using year_advanced_when_past [OF T ev_pd_in_progress(1)]
    by (simp add: oct_4_2025_1pm_def mk_datetime_def)
  from T l y ev_pd_in_progress(1) show ?thesis by simp
qed




text \<open>
  C1 fails on the code. \<^verbatim>\<open>_parse_end_time\<close> indexes \<^verbatim>\<open>time_part.split('-')[1]\<close>
  with no check, so a time range without a dash raises \<^verbatim>\<open>IndexError\<close> (at every
  current time); and the first \<^verbatim>\<open>replace(hour=hour, ...)\<close> of \<^verbatim>\<open>_parse_datetime\<close>
  is outside every \<^verbatim>\<open>try\<close>, so an hour above 23 raises \<^verbatim>\<open>ValueError\<close>.
\<close>

theorem parse_raises_on_malformed_input:
  "parse now ''12pm, Saturday 4th October'' = Inl IndexError
   \<and> parse jan_1_2025 ''25-26, Saturday 4th October'' = Inl ValueError"
  using parse_no_dash ev_parse_hour_25 by simp

section \<open>Properties of the extraction\<close>

lemmas extract_eval = ms_eval char_eval re_search_def re_sub_def re_split_def
  session_re_def next_sessions_re_def heading_re_def br_re_def tag_re_def separator_re_def

lemma ev_search_next:
  "re_search next_sessions_re
     ''Next Sessions: 12-2pm, Saturday 4th October<br>3-5pm, Sunday 5th October''
     = Some (0, 14)"
  by (simp del: ms.simps add: extract_eval)

lemma ev_search_heading:
  "re_search heading_re '' 12-2pm, Saturday 4th October<br>3-5pm, Sunday 5th October'' = None"
  by (simp del: ms.simps add: extract_eval)

lemma ev_text_of_block:
  "text_of_block '' 12-2pm, Saturday 4th October<br>3-5pm, Sunday 5th October''
     = example_text"
  by (simp del: ms.simps add: text_of_block_def example_text_def extract_eval)

lemma ev_split:
  "re_split separator_re example_text
     = [''12-2pm, Saturday 4th October'', ''3-5pm, Sunday 5th October'']"
  by (simp del: ms.simps add: example_text_def extract_eval)

lemma ev_findall_1:
  "re_findall session_re ''12-2pm, Saturday 4th October'' = [''12-2pm, Saturday 4th October'']"
  by (simp del: ms.simps add: extract_eval)

lemma ev_findall_2:
  "re_findall session_re ''3-5pm, Sunday 5th October'' = [''3-5pm, Sunday 5th October'']"
  by (simp del: ms.simps add: extract_eval)

lemma ev_extract:
  "extract_sessions example_html
     = (Some ''next'', [''12-2pm, Saturday 4th October'', ''3-5pm, Sunday 5th October''])"
  by (simp del: re_findall.simps
        add: extract_sessions_def example_html_def Let_def ev_search_next ev_search_heading
        ev_text_of_block ev_split ev_findall_1 ev_findall_2 strip_def is_space_def)

lemma ev_page_next:
  "re_search next_sessions_re
     ''<h1>Free Electricity</h1><p>Next Sessions: 12-2pm, Saturday 4th October<br>3-5pm, Sunday 5th October</p><h2>FAQ</h2><p>Next year?</p>''
     = Some (28, 42)"
  by (simp del: ms.simps add: extract_eval)

lemma ev_page_heading:
  "re_search heading_re
     '' 12-2pm, Saturday 4th October<br>3-5pm, Sunday 5th October</p><h2>FAQ</h2><p>Next year?</p>''
     = Some (62, 66)"
  by (simp del: ms.simps add: extract_eval)

lemma ev_page_text:
  "text_of_block '' 12-2pm, Saturday 4th October<br>3-5pm, Sunday 5th October</p>''
     = example_text"
  by (simp del: ms.simps add: text_of_block_def example_text_def extract_eval)

lemma ev_extract_page:
  "extract_sessions example_page
     = (Some ''next'', [''12-2pm, Saturday 4th October'', ''3-5pm, Sunday 5th October''])"
  by (simp del: re_findall.simps
        add: extract_sessions_def example_page_def Let_def ev_page_next ev_page_heading
        ev_page_text ev_split ev_findall_1 ev_findall_2 strip_def is_space_def)

text \<open>
  C9. On the markup \<^verbatim>\<open>Next Sessions: 12-2pm, Saturday 4th October<br>3-5pm, Sunday 5th October\<close>,
  alone and inside a page (after a heading and the start of a paragraph, before the end
  of the paragraph and a further heading), \<^verbatim>\<open>extract_sessions\<close> returns the
  classification \<^verbatim>\<open>next\<close> and the two descriptors \<^verbatim>\<open>12-2pm, Saturday 4th October\<close>
  and \<^verbatim>\<open>3-5pm, Sunday 5th October\<close>, and no other; and on every markup the list it
  returns has no string twice.
\<close>

theorem extract_sessions_example_and_distinct:
  "fst (extract_sessions example_html) = Some ''next''
   \<and> set (snd (extract_sessions example_html))
       = {''12-2pm, Saturday 4th October'', ''3-5pm, Sunday 5th October''}
   \<and> length (snd (extract_sessions example_html)) = 2
   \<and> fst (extract_sessions example_page) = Some ''next''
   \<and> set (snd (extract_sessions example_page))
       = {''12-2pm, Saturday 4th October'', ''3-5pm, Sunday 5th October''}
   \<and> length (snd (extract_sessions example_page)) = 2
   \<and> distinct (snd (extract_sessions html))"
proof -
  have "distinct (snd (extract_sessions html))"
    by (simp add: extract_sessions_def Let_def)
  then show ?thesis
    by (simp add: ev_extract ev_extract_page)
qed

end
